theory Spec2Isabelle
  imports Complex_Main "HOL-Library.Multiset"
begin

section \<open>JavaScript numbers\<close>

text \<open>
  The map component (\<^verbatim>\<open>LocationMap\<close>, first variant of the repository) computes with
  JavaScript numbers. A number is modelled as a real, or one of the three special values
  that JavaScript arithmetic yields instead of raising: \<^verbatim>\<open>Infinity\<close>, \<^verbatim>\<open>-Infinity\<close> and
  \<^verbatim>\<open>NaN\<close>. Finite arithmetic is exact (no rounding, no overflow), and \<^verbatim>\<open>-0\<close> is
  identified with \<^verbatim>\<open>+0\<close>; the one place of the component where rounding decides the
  control flow, the loop counter of the curve sampling, is modelled with binary64
  rounding (section \<open>Curve sampling\<close>).
\<close>

datatype jsnum = Fin real | PosInf | NegInf | NaN

fun isNaN :: "jsnum \<Rightarrow> bool" where
  "isNaN NaN = True"
| "isNaN _ = False"

fun js_neg :: "jsnum \<Rightarrow> jsnum" where
  "js_neg (Fin a) = Fin (- a)"
| "js_neg PosInf = NegInf"
| "js_neg NegInf = PosInf"
| "js_neg NaN = NaN"

fun js_add :: "jsnum \<Rightarrow> jsnum \<Rightarrow> jsnum" where
  "js_add (Fin a) (Fin b) = Fin (a + b)"
| "js_add NaN _ = NaN"
| "js_add _ NaN = NaN"
| "js_add PosInf NegInf = NaN"
| "js_add NegInf PosInf = NaN"
| "js_add PosInf _ = PosInf"
| "js_add NegInf _ = NegInf"
| "js_add _ PosInf = PosInf"
| "js_add _ NegInf = NegInf"

definition js_sub :: "jsnum \<Rightarrow> jsnum \<Rightarrow> jsnum" where
  "js_sub a b = js_add a (js_neg b)"

text \<open>\<open>inf_times a\<close> is \<^verbatim>\<open>Infinity * a\<close> for a finite \<open>a\<close>; \<^verbatim>\<open>Infinity * 0\<close> is \<^verbatim>\<open>NaN\<close>.\<close>

definition inf_times :: "real \<Rightarrow> jsnum" where
  "inf_times a = (if a = 0 then NaN else if 0 < a then PosInf else NegInf)"

fun js_mul :: "jsnum \<Rightarrow> jsnum \<Rightarrow> jsnum" where
  "js_mul (Fin a) (Fin b) = Fin (a * b)"
| "js_mul NaN _ = NaN"
| "js_mul _ NaN = NaN"
| "js_mul PosInf (Fin b) = inf_times b"
| "js_mul NegInf (Fin b) = inf_times (- b)"
| "js_mul (Fin a) PosInf = inf_times a"
| "js_mul (Fin a) NegInf = inf_times (- a)"
| "js_mul PosInf PosInf = PosInf"
| "js_mul PosInf NegInf = NegInf"
| "js_mul NegInf PosInf = NegInf"
| "js_mul NegInf NegInf = PosInf"

text \<open>
  Division never raises: a finite non-zero number divided by zero is an infinity, and
  \<^verbatim>\<open>0 / 0\<close> is \<^verbatim>\<open>NaN\<close>. The zero divisor is taken as \<^verbatim>\<open>+0\<close>.
\<close>

fun js_div :: "jsnum \<Rightarrow> jsnum \<Rightarrow> jsnum" where
  "js_div (Fin a) (Fin b) = (if b = 0 then inf_times a else Fin (a / b))"
| "js_div NaN _ = NaN"
| "js_div _ NaN = NaN"
| "js_div (Fin a) PosInf = Fin 0"
| "js_div (Fin a) NegInf = Fin 0"
| "js_div PosInf (Fin b) = (if b < 0 then NegInf else PosInf)"
| "js_div NegInf (Fin b) = (if b < 0 then PosInf else NegInf)"
| "js_div PosInf PosInf = NaN"
| "js_div PosInf NegInf = NaN"
| "js_div NegInf PosInf = NaN"
| "js_div NegInf NegInf = NaN"

text \<open>
  The remainder \<^verbatim>\<open>a % b\<close> takes the sign of the dividend: \<open>a - b * trunc (a / b)\<close>.
\<close>

definition trunc :: "real \<Rightarrow> int" where
  "trunc x = (if 0 \<le> x then \<lfloor>x\<rfloor> else - \<lfloor>- x\<rfloor>)"

fun js_mod :: "jsnum \<Rightarrow> jsnum \<Rightarrow> jsnum" where
  "js_mod (Fin a) (Fin b) = (if b = 0 then NaN else Fin (a - b * of_int (trunc (a / b))))"
| "js_mod (Fin a) PosInf = Fin a"
| "js_mod (Fin a) NegInf = Fin a"
| "js_mod _ _ = NaN"

fun Math_sqrt :: "jsnum \<Rightarrow> jsnum" where
  "Math_sqrt (Fin a) = (if a < 0 then NaN else Fin (sqrt a))"
| "Math_sqrt PosInf = PosInf"
| "Math_sqrt NegInf = NaN"
| "Math_sqrt NaN = NaN"

text \<open>\<^verbatim>\<open>Math.pow\<close> with a natural exponent (the component only squares).\<close>

fun Math_pow :: "jsnum \<Rightarrow> nat \<Rightarrow> jsnum" where
  "Math_pow (Fin a) n = Fin (a ^ n)"
| "Math_pow PosInf n = (if n = 0 then Fin 1 else PosInf)"
| "Math_pow NegInf n = (if n = 0 then Fin 1 else if even n then PosInf else NegInf)"
| "Math_pow NaN n = (if n = 0 then Fin 1 else NaN)"

fun Math_abs :: "jsnum \<Rightarrow> jsnum" where
  "Math_abs (Fin a) = Fin \<bar>a\<bar>"
| "Math_abs PosInf = PosInf"
| "Math_abs NegInf = PosInf"
| "Math_abs NaN = NaN"

text \<open>Comparisons: every comparison with \<^verbatim>\<open>NaN\<close> is false.\<close>

fun js_lt :: "jsnum \<Rightarrow> jsnum \<Rightarrow> bool" where
  "js_lt (Fin a) (Fin b) = (a < b)"
| "js_lt NaN _ = False"
| "js_lt _ NaN = False"
| "js_lt _ NegInf = False"
| "js_lt PosInf _ = False"
| "js_lt NegInf _ = True"
| "js_lt _ PosInf = True"

definition js_gt :: "jsnum \<Rightarrow> jsnum \<Rightarrow> bool" where
  "js_gt a b = js_lt b a"

fun js_le :: "jsnum \<Rightarrow> jsnum \<Rightarrow> bool" where
  "js_le NaN _ = False"
| "js_le _ NaN = False"
| "js_le a b = (\<not> js_lt b a)"

text \<open>
  \<^verbatim>\<open>Math.max(...xs)\<close>: \<^verbatim>\<open>-Infinity\<close> for no argument, \<^verbatim>\<open>NaN\<close> as soon as one
  argument is \<^verbatim>\<open>NaN\<close>.
\<close>

definition max2 :: "jsnum \<Rightarrow> jsnum \<Rightarrow> jsnum" where
  "max2 a b = (if isNaN a \<or> isNaN b then NaN else if js_lt a b then b else a)"

definition Math_max :: "jsnum list \<Rightarrow> jsnum" where
  "Math_max xs = foldl max2 NegInf xs"

section \<open>Arc geometry\<close>

text \<open>
  The body of the \<^verbatim>\<open>forEach\<close> of \<^verbatim>\<open>drawArcs\<close>, one definition for each local constant.
  A point is the pair \<^verbatim>\<open>[lat, lng]\<close>; \<open>p0\<close> is \<^verbatim>\<open>originPoint\<close> (the restaurant) and
  \<open>p1\<close> is \<^verbatim>\<open>destPoint\<close>. The arithmetic is the exact one of \<open>jsnum\<close>: in particular
  \<^verbatim>\<open>dx * dx + dy * dy\<close> is zero for coincident end points only, whereas in binary64 the
  squares of differences below about \<open>1.5e-162\<close> underflow to zero, and end points that
  close in both coordinates get the \<^verbatim>\<open>normFactor\<close> \<^verbatim>\<open>Infinity\<close> of coincident ones.
  Statements about the control point are therefore made under a condition on the sum of
  squares as computed, not on the end points.
\<close>

type_synonym point = "jsnum \<times> jsnum"

definition normalizedValue :: "jsnum \<Rightarrow> jsnum \<Rightarrow> jsnum" where
  "normalizedValue visitorCount maxVisitors =
     js_add (Fin 0.3) (js_mul (js_div visitorCount maxVisitors) (Fin 0.7))"

definition midX :: "point \<Rightarrow> point \<Rightarrow> jsnum" where
  "midX p0 p1 = js_div (js_add (fst p0) (fst p1)) (Fin 2)"

definition midY :: "point \<Rightarrow> point \<Rightarrow> jsnum" where
  "midY p0 p1 = js_div (js_add (snd p0) (snd p1)) (Fin 2)"

definition distance :: "point \<Rightarrow> point \<Rightarrow> jsnum" where
  "distance p0 p1 =
     Math_sqrt (js_add (Math_pow (js_sub (fst p1) (fst p0)) 2)
                       (Math_pow (js_sub (snd p1) (snd p0)) 2))"

definition controlHeight :: "point \<Rightarrow> point \<Rightarrow> jsnum" where
  "controlHeight p0 p1 = js_mul (distance p0 p1) (Fin 0.2)"

definition dx :: "point \<Rightarrow> point \<Rightarrow> jsnum" where
  "dx p0 p1 = js_sub (fst p1) (fst p0)"

definition dy :: "point \<Rightarrow> point \<Rightarrow> jsnum" where
  "dy p0 p1 = js_sub (snd p1) (snd p0)"

definition normFactor :: "point \<Rightarrow> point \<Rightarrow> jsnum" where
  "normFactor p0 p1 =
     js_div (Fin 1)
       (Math_sqrt (js_add (js_mul (dx p0 p1) (dx p0 p1)) (js_mul (dy p0 p1) (dy p0 p1))))"

definition perpX :: "point \<Rightarrow> point \<Rightarrow> jsnum" where
  "perpX p0 p1 = js_mul (js_neg (dy p0 p1)) (normFactor p0 p1)"

definition perpY :: "point \<Rightarrow> point \<Rightarrow> jsnum" where
  "perpY p0 p1 = js_mul (dx p0 p1) (normFactor p0 p1)"

definition controlPoint :: "point \<Rightarrow> point \<Rightarrow> point" where
  "controlPoint p0 p1 =
     (js_add (midX p0 p1) (js_mul (perpX p0 p1) (controlHeight p0 p1)),
      js_add (midY p0 p1) (js_mul (perpY p0 p1) (controlHeight p0 p1)))"

text \<open>
  One coordinate of the quadratic Bezier formula of the sampling loop:
  \<^verbatim>\<open>Math.pow(1 - t, 2) * a + 2 * (1 - t) * t * c + Math.pow(t, 2) * b\<close>.
\<close>

definition bezier :: "jsnum \<Rightarrow> jsnum \<Rightarrow> jsnum \<Rightarrow> jsnum \<Rightarrow> jsnum" where
  "bezier t a c b =
     js_add
       (js_add (js_mul (Math_pow (js_sub (Fin 1) t) 2) a)
               (js_mul (js_mul (js_mul (Fin 2) (js_sub (Fin 1) t)) t) c))
       (js_mul (Math_pow t 2) b)"

definition bezierPoint :: "point \<Rightarrow> point \<Rightarrow> point \<Rightarrow> jsnum \<Rightarrow> point" where
  "bezierPoint p0 c p1 t = (bezier t (fst p0) (fst c) (fst p1), bezier t (snd p0) (snd c) (snd p1))"

section \<open>Curve sampling\<close>

text \<open>
  \<^verbatim>\<open>for (let t = 0; t <= 1; t += 0.05)\<close>. The number of samples depends on how the
  repeated addition rounds, so the counter is a binary64 value. Every value it takes is
  a multiple of \<open>2^-57\<close> below \<open>2\<close> and is written as its numerator: \<open>n\<close> stands for
  \<open>n / 2^57\<close>. \<open>fl53\<close> rounds a numerator to the nearest one with at most 53 significant
  bits, ties to the even significand, which is what binary64 addition does to the exact
  sum. The literal \<^verbatim>\<open>0.05\<close> is the binary64 number \<^verbatim>\<open>0x1.999999999999ap-5\<close>.
\<close>

fun bitlen :: "nat \<Rightarrow> nat" where
  "bitlen n = (if n = 0 then 0 else Suc (bitlen (n div 2)))"

declare bitlen.simps [simp del]

definition round_half_even :: "nat \<Rightarrow> nat \<Rightarrow> nat" where
  "round_half_even n d =
     (let q = n div d; r = n mod d
      in if 2 * r < d then q else if d < 2 * r then q + 1 else if even q then q else q + 1)"

definition fl53 :: "nat \<Rightarrow> nat" where
  "fl53 n = (let k = bitlen n - 53 in round_half_even n (2 ^ k) * 2 ^ k)"

definition step_0_05 :: nat where
  "step_0_05 = 7205759403792794"

definition one57 :: nat where
  "one57 = 2 ^ 57"

definition t_value :: "nat \<Rightarrow> jsnum" where
  "t_value n = Fin (real n / 2 ^ 57)"

function sampleTs :: "nat \<Rightarrow> nat list" where
  "sampleTs t = (if t \<le> one57 then t # sampleTs (fl53 (t + step_0_05)) else [])"
  by pat_completeness auto

lemma bitlen_le: "n < 2 ^ m \<Longrightarrow> bitlen n \<le> m"
proof (induction m arbitrary: n)
  case 0
  then show ?case by (simp add: bitlen.simps)
next
  case (Suc m)
  show ?case
  proof (cases "n = 0")
    case True
    then show ?thesis by (simp add: bitlen.simps)
  next
    case False
    from Suc.prems have "n div 2 < 2 ^ m" by simp
    from Suc.IH [OF this] False show ?thesis by (subst bitlen.simps) simp
  qed
qed

lemma round_half_even_lower:
  assumes d: "0 < d"
  shows "n \<le> round_half_even n d * d + d div 2"
proof -
  define q where "q = n div d"
  define r where "r = n mod d"
  have n: "n = q * d + r" by (simp add: q_def r_def)
  have r: "r < d" using d by (simp add: r_def)
  have rhe: "round_half_even n d =
      (if 2 * r < d then q else if d < 2 * r then q + 1 else if even q then q else q + 1)"
    by (simp add: round_half_even_def q_def r_def Let_def)
  consider "2 * r < d" | "d < 2 * r" | "2 * r = d" by linarith
  then show ?thesis
  proof cases
    case 1
    then have v: "round_half_even n d = q" by (simp add: rhe)
    from 1 have "r \<le> d div 2" by simp
    with n show ?thesis unfolding v by linarith
  next
    case 2
    then have v: "round_half_even n d = q + 1" by (simp add: rhe)
    have "(q + 1) * d = q * d + d" by (simp add: algebra_simps)
    with n r show ?thesis unfolding v by linarith
  next
    case 3
    then have "q \<le> round_half_even n d" by (simp add: rhe)
    then have v: "q * d \<le> round_half_even n d * d" by simp
    from 3 have "r \<le> d div 2" by simp
    with n v show ?thesis by linarith
  qed
qed

lemma fl53_increases:
  assumes "t \<le> one57"
  shows "t < fl53 (t + step_0_05)"
proof -
  let ?n = "t + step_0_05"
  let ?k = "bitlen ?n - 53"
  have "?n < 2 ^ 58" using assms by (simp add: one57_def step_0_05_def)
  then have "bitlen ?n \<le> 58" by (rule bitlen_le)
  then have k: "?k \<le> 5" by simp
  have "(2::nat) ^ ?k \<le> 2 ^ 5" using k by (intro power_increasing) simp_all
  then have d: "(2::nat) ^ ?k div 2 \<le> 16" by simp
  have "?n \<le> fl53 ?n + 2 ^ ?k div 2"
    unfolding fl53_def Let_def by (rule round_half_even_lower) simp
  with d show ?thesis by (simp add: step_0_05_def)
qed

termination sampleTs
  by (relation "measure (\<lambda>t. Suc one57 - t)")
    (use fl53_increases in \<open>auto simp: less_Suc_eq_le intro!: diff_less_mono2\<close>)

declare sampleTs.simps [simp del]

text \<open>
  \<^verbatim>\<open>curvePoints\<close>: one sample of the curve for every value the counter takes.
\<close>

definition curvePoints :: "point \<Rightarrow> point \<Rightarrow> point list" where
  "curvePoints p0 p1 = map (\<lambda>n. bezierPoint p0 (controlPoint p0 p1) p1 (t_value n)) (sampleTs 0)"

section \<open>Cells of a parsed CSV row\<close>

text \<open>
  \<^verbatim>\<open>Papa.parse\<close> with \<^verbatim>\<open>dynamicTyping\<close> gives every cell of a row as a scalar:
  a number, a boolean, a string or \<^verbatim>\<open>null\<close>; a column the file does not have reads as
  \<^verbatim>\<open>undefined\<close>.
\<close>

datatype jsval = Undefined | Null | JBool bool | JNum jsnum | JStr string

fun truthy :: "jsval \<Rightarrow> bool" where
  "truthy Undefined = False"
| "truthy Null = False"
| "truthy (JBool b) = b"
| "truthy (JNum (Fin a)) = (a \<noteq> 0)"
| "truthy (JNum NaN) = False"
| "truthy (JNum PosInf) = True"
| "truthy (JNum NegInf) = True"
| "truthy (JStr s) = (s \<noteq> [])"

text \<open>\<^verbatim>\<open>a && b\<close> and \<^verbatim>\<open>a || b\<close> return one of their operands.\<close>

definition js_and :: "jsval \<Rightarrow> jsval \<Rightarrow> jsval" where
  "js_and a b = (if truthy a then b else a)"

definition js_or :: "jsval \<Rightarrow> jsval \<Rightarrow> jsval" where
  "js_or a b = (if truthy a then a else b)"

subsection \<open>Reading numbers from strings\<close>

text \<open>
  The built-in conversions the pipeline calls, after ECMAScript. A string is a list of
  code units below 256, so the white space is TAB, LF, VT, FF, CR, SP and NBSP.
\<close>

definition is_ws :: "char \<Rightarrow> bool" where
  "is_ws c = ((of_char c :: nat) \<in> {9, 10, 11, 12, 13, 32, 160})"

text \<open>The value of a digit in a radix up to 16, if the character is one.\<close>

definition digit_val :: "nat \<Rightarrow> char \<Rightarrow> nat option" where
  "digit_val radix c =
     (let n = (of_char c :: nat);
          v = (if 48 \<le> n \<and> n \<le> 57 then Some (n - 48)
               else if 97 \<le> n \<and> n \<le> 102 then Some (n - 87)
               else if 65 \<le> n \<and> n \<le> 70 then Some (n - 55)
               else None)
      in case v of None \<Rightarrow> None | Some d \<Rightarrow> if d < radix then Some d else None)"

definition is_digit :: "nat \<Rightarrow> char \<Rightarrow> bool" where
  "is_digit radix c = (digit_val radix c \<noteq> None)"

definition digits_value :: "nat \<Rightarrow> string \<Rightarrow> nat" where
  "digits_value radix ds = foldl (\<lambda>acc c. acc * radix + the (digit_val radix c)) 0 ds"

text \<open>\<open>x * 10 ^ e\<close> for an integer exponent.\<close>

definition scale10 :: "real \<Rightarrow> int \<Rightarrow> real" where
  "scale10 x e = (if 0 \<le> e then x * 10 ^ nat e else x / 10 ^ nat (- e))"

text \<open>
  The exponent part at the head of a string: \<^verbatim>\<open>e\<close> or \<^verbatim>\<open>E\<close>, an optional sign and at
  least one digit. Without a digit there is no exponent part and nothing is consumed.
\<close>

definition exponent_part :: "string \<Rightarrow> int \<times> string" where
  "exponent_part s =
     (case s of
        [] \<Rightarrow> (0, s)
      | c # r \<Rightarrow>
          if c = CHR ''e'' \<or> c = CHR ''E'' then
            (let neg = (r \<noteq> [] \<and> hd r = CHR ''-'');
                 r' = (if r \<noteq> [] \<and> (hd r = CHR ''+'' \<or> hd r = CHR ''-'') then tl r else r);
                 es = takeWhile (is_digit 10) r'
             in if es = [] then (0, s)
                else ((if neg then - int (digits_value 10 es) else int (digits_value 10 es)),
                      dropWhile (is_digit 10) r'))
          else (0, s))"

text \<open>
  The longest prefix that is an unsigned decimal literal (\<^verbatim>\<open>12\<close>, \<^verbatim>\<open>12.\<close>, \<^verbatim>\<open>12.5\<close>,
  \<^verbatim>\<open>.5\<close>, each with an optional exponent part), with its value and the rest.
\<close>

definition unsigned_decimal :: "string \<Rightarrow> (real \<times> string) option" where
  "unsigned_decimal s =
     (let ip = takeWhile (is_digit 10) s;
          r1 = dropWhile (is_digit 10) s;
          dot = (r1 \<noteq> [] \<and> hd r1 = CHR ''.'');
          fp = (if dot then takeWhile (is_digit 10) (tl r1) else []);
          r2 = (if dot then dropWhile (is_digit 10) (tl r1) else r1)
      in if ip = [] \<and> fp = [] then None
         else
           (let m = real (digits_value 10 ip) + real (digits_value 10 fp) / 10 ^ length fp;
                (e, r3) = exponent_part r2
            in Some (scale10 m e, r3)))"

text \<open>
  The longest prefix that is a \<^verbatim>\<open>StrDecimalLiteral\<close>: an optional sign, then
  \<^verbatim>\<open>Infinity\<close> or an unsigned decimal literal.
\<close>

definition unsigned_literal :: "string \<Rightarrow> (jsnum \<times> string) option" where
  "unsigned_literal s =
     (if take 8 s = ''Infinity'' then Some (PosInf, drop 8 s)
      else case unsigned_decimal s of
             None \<Rightarrow> None
           | Some (v, r) \<Rightarrow> Some (Fin v, r))"

definition decimal_literal :: "string \<Rightarrow> (jsnum \<times> string) option" where
  "decimal_literal s =
     (case s of
        [] \<Rightarrow> None
      | c # r \<Rightarrow>
          if c = CHR ''-'' then
            (case unsigned_literal r of None \<Rightarrow> None | Some (v, r') \<Rightarrow> Some (js_neg v, r'))
          else if c = CHR ''+'' then unsigned_literal r
          else unsigned_literal s)"

text \<open>
  A string that comes from \<^verbatim>\<open>String(v)\<close>. For a finite number the decimal rendering is
  kept as the number it renders (\<open>NumText\<close>): it has no comma and no apostrophe, and
  \<^verbatim>\<open>parseFloat\<close> reads the same number back.
\<close>

datatype jstext = Text string | NumText real

fun String_js :: "jsval \<Rightarrow> jstext" where
  "String_js Undefined = Text ''undefined''"
| "String_js Null = Text ''null''"
| "String_js (JBool b) = Text (if b then ''true'' else ''false'')"
| "String_js (JNum (Fin a)) = NumText a"
| "String_js (JNum PosInf) = Text ''Infinity''"
| "String_js (JNum NegInf) = Text ''-Infinity''"
| "String_js (JNum NaN) = Text ''NaN''"
| "String_js (JStr s) = Text s"

text \<open>
  \<^verbatim>\<open>s.replace(pat, rep)\<close> with a string pattern replaces the first occurrence only.
\<close>

fun replace_first :: "string \<Rightarrow> string \<Rightarrow> string \<Rightarrow> string" where
  "replace_first pat rep [] = (if pat = [] then rep else [])"
| "replace_first pat rep (c # cs) =
     (if take (length pat) (c # cs) = pat then rep @ drop (length pat) (c # cs)
      else c # replace_first pat rep cs)"

text \<open>
  On the rendering of a number the two patterns the pipeline uses (a comma, an
  apostrophe) do not occur.
\<close>

fun js_replace :: "string \<Rightarrow> string \<Rightarrow> jstext \<Rightarrow> jstext" where
  "js_replace pat rep (Text s) = Text (replace_first pat rep s)"
| "js_replace pat rep (NumText a) = NumText a"

text \<open>
  \<^verbatim>\<open>parseFloat(s)\<close>: white space, then the longest prefix that is a decimal literal.
  The value is the exact decimal value of the literal; JavaScript rounds it to the
  nearest binary64 number (\<^verbatim>\<open>parseFloat("90.00000000000000000001")\<close> is \<^verbatim>\<open>90\<close>), so
  statements about a parsed coordinate are made on the value \<open>parseFloat\<close> returns, not
  on the digits of the cell.
\<close>

fun parseFloat :: "jstext \<Rightarrow> jsnum" where
  "parseFloat (Text s) =
     (case decimal_literal (dropWhile is_ws s) of None \<Rightarrow> NaN | Some (v, r) \<Rightarrow> v)"
| "parseFloat (NumText a) = Fin a"

text \<open>
  \<^verbatim>\<open>parseInt(s)\<close> without a radix: white space, an optional sign, an optional
  \<^verbatim>\<open>0x\<close> prefix, then the longest run of digits. The value is the exact value of
  the digits; JavaScript rounds it to the nearest binary64 number, which changes it
  above \<open>2^53\<close> only (\<^verbatim>\<open>parseInt("9007199254740993")\<close> is \<^verbatim>\<open>9007199254740992\<close>).
\<close>

definition parseInt_string :: "string \<Rightarrow> jsnum" where
  "parseInt_string s =
     (let s1 = dropWhile is_ws s;
          neg = (s1 \<noteq> [] \<and> hd s1 = CHR ''-'');
          s2 = (if s1 \<noteq> [] \<and> (hd s1 = CHR ''+'' \<or> hd s1 = CHR ''-'') then tl s1 else s1);
          hex = (take 2 s2 = ''0x'' \<or> take 2 s2 = ''0X'');
          radix = (if hex then 16 else 10);
          s3 = (if hex then drop 2 s2 else s2);
          ds = takeWhile (is_digit radix) s3
      in if ds = [] then NaN
         else Fin (if neg then - real (digits_value radix ds) else real (digits_value radix ds)))"

text \<open>
  On the rendering of a finite number \<^verbatim>\<open>parseInt\<close> reads the digits before the point:
  the integer part when the rendering is positional (from \<open>10^-6\<close> up to \<open>10^21\<close>), and
  the leading digit when it is in exponent notation.
\<close>

definition leading_digit :: "real \<Rightarrow> int" where
  "leading_digit m = \<lfloor>m / 10 powr real_of_int \<lfloor>log 10 m\<rfloor>\<rfloor>"

definition parseInt_number :: "real \<Rightarrow> real" where
  "parseInt_number a =
     (let m = \<bar>a\<bar>;
          k = (if m = 0 then 0
               else if 1 / 10 ^ 6 \<le> m \<and> m < 10 ^ 21 then \<lfloor>m\<rfloor>
               else leading_digit m)
      in if a < 0 then - of_int k else of_int k)"

fun parseInt :: "jstext \<Rightarrow> jsnum" where
  "parseInt (Text s) = parseInt_string s"
| "parseInt (NumText a) = Fin (parseInt_number a)"

text \<open>
  \<^verbatim>\<open>ToNumber\<close>, which the comparison \<^verbatim>\<open>row.visitor_count > 0\<close> applies to the cell.
  A string is trimmed; the empty string is 0; otherwise the whole of it has to be a
  decimal literal or a hexadecimal, octal or binary integer literal.
\<close>

definition trim :: "string \<Rightarrow> string" where
  "trim s = rev (dropWhile is_ws (rev (dropWhile is_ws s)))"

definition radix_literal :: "string \<Rightarrow> jsnum" where
  "radix_literal s =
     (let p = take 2 s;
          radix = (if p = ''0x'' \<or> p = ''0X'' then 16
                   else if p = ''0o'' \<or> p = ''0O'' then 8
                   else if p = ''0b'' \<or> p = ''0B'' then 2 else (0::nat));
          ds = drop 2 s
      in if radix \<noteq> 0 \<and> ds \<noteq> [] \<and> list_all (is_digit radix) ds
         then Fin (real (digits_value radix ds)) else NaN)"

definition stringToNumber :: "string \<Rightarrow> jsnum" where
  "stringToNumber s =
     (let t = trim s
      in if t = [] then Fin 0
         else case decimal_literal t of
                Some (v, r) \<Rightarrow> if r = [] then v else radix_literal t
              | None \<Rightarrow> radix_literal t)"

fun toNumber :: "jsval \<Rightarrow> jsnum" where
  "toNumber Undefined = NaN"
| "toNumber Null = Fin 0"
| "toNumber (JBool b) = Fin (if b then 1 else 0)"
| "toNumber (JNum a) = a"
| "toNumber (JStr s) = stringToNumber s"

section \<open>Destination rows\<close>

text \<open>The columns of a row that the component reads.\<close>

record csv_row =
  KoordinatX :: jsval
  KoordinatY :: jsval
  latitude :: jsval
  longitude :: jsval
  visitor_count :: jsval
  place_name :: jsval
  MusteriTabelaAdi :: jsval
  MusteriCesidi :: jsval

record DestinationPoint =
  name :: jsval
  lat :: jsnum
  lng :: jsnum
  visitorCount :: jsnum
  type :: jsval

text \<open>The first \<^verbatim>\<open>filter\<close> of the pipeline.\<close>

definition hasCoordinates :: "csv_row \<Rightarrow> jsval" where
  "hasCoordinates row =
     js_or (js_and (KoordinatX row) (KoordinatY row)) (js_and (latitude row) (longitude row))"

definition hasVisitors :: "csv_row \<Rightarrow> jsval" where
  "hasVisitors row =
     js_and (visitor_count row) (JBool (js_gt (toNumber (visitor_count row)) (Fin 0)))"

definition rowFilter :: "csv_row \<Rightarrow> bool" where
  "rowFilter row = truthy (js_and (hasCoordinates row) (hasVisitors row))"

text \<open>The \<^verbatim>\<open>map\<close> of the pipeline.\<close>

definition koordinatX :: "csv_row \<Rightarrow> jstext" where
  "koordinatX row = String_js (js_or (js_or (KoordinatX row) (latitude row)) (JStr []))"

definition koordinatY :: "csv_row \<Rightarrow> jstext" where
  "koordinatY row = String_js (js_or (js_or (KoordinatY row) (longitude row)) (JStr []))"

definition parseCoordinate :: "jstext \<Rightarrow> jsnum" where
  "parseCoordinate k = parseFloat (js_replace [CHR 0x27] [] (js_replace '','' ''.'' k))"

definition toDestination :: "csv_row \<Rightarrow> DestinationPoint" where
  "toDestination row =
     \<lparr> name = js_or (js_or (place_name row) (MusteriTabelaAdi row)) (JStr ''Unknown Location''),
       lat = parseCoordinate (koordinatX row),
       lng = parseCoordinate (koordinatY row),
       visitorCount = parseInt (String_js (js_or (visitor_count row) (JNum (Fin 0)))),
       type = js_or (MusteriCesidi row) (JStr ''Unspecified'') \<rparr>"

text \<open>The second \<^verbatim>\<open>filter\<close> of the pipeline.\<close>

definition validCoordinates :: "DestinationPoint \<Rightarrow> bool" where
  "validCoordinates dest =
     (\<not> isNaN (lat dest) \<and> \<not> isNaN (lng dest) \<and>
      js_le (Math_abs (lat dest)) (Fin 90) \<and> js_le (Math_abs (lng dest)) (Fin 180))"

definition destFilter :: "DestinationPoint \<Rightarrow> bool" where
  "destFilter dest = (validCoordinates dest \<and> js_gt (visitorCount dest) (Fin 0))"

definition validDestinations :: "csv_row list \<Rightarrow> DestinationPoint list" where
  "validDestinations rows = filter destFilter (map toDestination (filter rowFilter rows))"

section \<open>Destination selection\<close>

text \<open>
  \<^verbatim>\<open>.sort((a, b) => b.visitorCount - a.visitorCount).slice(0, maxArcs)\<close>.
  \<^verbatim>\<open>Array.prototype.sort\<close> is stable and orders by the sign of the comparator; a
  comparator result that is not greater than zero (a \<^verbatim>\<open>NaN\<close> counts as zero) leaves the
  earlier element first. For a comparator that is a consistent order every stable sort
  returns the same list, so the sort is written as a stable insertion sort.
\<close>

fun insert_by :: "('a \<Rightarrow> 'a \<Rightarrow> jsnum) \<Rightarrow> 'a \<Rightarrow> 'a list \<Rightarrow> 'a list" where
  "insert_by cmp x [] = [x]"
| "insert_by cmp x (y # ys) =
     (if js_gt (cmp x y) (Fin 0) then y # insert_by cmp x ys else x # y # ys)"

definition sort_js :: "('a \<Rightarrow> 'a \<Rightarrow> jsnum) \<Rightarrow> 'a list \<Rightarrow> 'a list" where
  "sort_js cmp xs = foldr (insert_by cmp) xs []"

definition byVisitorCount :: "DestinationPoint \<Rightarrow> DestinationPoint \<Rightarrow> jsnum" where
  "byVisitorCount a b = js_sub (visitorCount b) (visitorCount a)"

text \<open>
  \<^verbatim>\<open>xs.slice(0, e)\<close> for an integer \<open>e\<close>: a negative \<open>e\<close> counts from the end of
  the list.
\<close>

definition slice0 :: "int \<Rightarrow> 'a list \<Rightarrow> 'a list" where
  "slice0 e xs =
     (let len = int (length xs);
          final = (if e < 0 then max (len + e) 0 else min e len)
      in take (nat final) xs)"

definition sortSlice :: "int \<Rightarrow> DestinationPoint list \<Rightarrow> DestinationPoint list" where
  "sortSlice maxArcs dests = slice0 maxArcs (sort_js byVisitorCount dests)"

definition topDestinations :: "int \<Rightarrow> csv_row list \<Rightarrow> DestinationPoint list" where
  "topDestinations maxArcs rows = sortSlice maxArcs (validDestinations rows)"

text \<open>The default value of the property \<^verbatim>\<open>maxArcs\<close>.\<close>

definition maxArcs_default :: int where
  "maxArcs_default = 10"

section \<open>The map, its layers and the timers\<close>

text \<open>
  What the component keeps between calls: the Leaflet map behind \<^verbatim>\<open>mapRef.current\<close>
  (its layers in the order they were added, and its view), the two pieces of React state
  that \<^verbatim>\<open>drawArcs\<close> reads, the intervals started with \<^verbatim>\<open>window.setInterval\<close>, and
  the console. A console entry keeps the literal text of the message up to its first
  interpolated value. Popups are not modelled.
\<close>

record path_options =
  color :: string
  weight :: jsnum
  opacity :: jsnum
  className :: "string option"
  radius :: "jsnum option"
  fillColor :: "string option"
  fillOpacity :: "jsnum option"

datatype layer =
    TileLayer string
  | Polyline "point list" path_options
  | CircleMarker point path_options

datatype view = SetView point jsnum | FitBounds "point list"

record leaflet_map =
  layers :: "layer list"
  view :: view

datatype console_entry = ConsoleLog string | ConsoleError string

text \<open>
  The closure of one \<^verbatim>\<open>animateArc\<close>: its variables \<^verbatim>\<open>dashArray\<close> and \<^verbatim>\<open>offset\<close>, and
  the attributes of the SVG element of its polyline, which only this closure writes.
\<close>

record arc_animation =
  dashArray :: jsnum
  offset :: jsnum
  stroke_dasharray :: "(jsnum \<times> jsnum) option"
  stroke_dashoffset :: "jsnum option"
  classList :: "string list"

record component =
  mapRef :: "leaflet_map option"
  restaurantCoordinates :: "point option"
  destinations :: "DestinationPoint list"
  intervals :: "arc_animation list"
  console :: "console_entry list"

definition console_log :: "string \<Rightarrow> component \<Rightarrow> component" where
  "console_log msg st = st\<lparr>console := console st @ [ConsoleLog msg]\<rparr>"

definition console_error :: "string \<Rightarrow> component \<Rightarrow> component" where
  "console_error msg st = st\<lparr>console := console st @ [ConsoleError msg]\<rparr>"

text \<open>
  Leaflet is not part of the repository. Of its behaviour the model uses: a coordinate
  pair with a \<^verbatim>\<open>NaN\<close> is refused with the error \<^verbatim>\<open>Invalid LatLng object\<close> (by
  \<^verbatim>\<open>L.polyline\<close>, \<^verbatim>\<open>L.circleMarker\<close> and \<^verbatim>\<open>L.latLng\<close>); \<^verbatim>\<open>addTo\<close> appends a layer
  to the map; \<^verbatim>\<open>removeLayer\<close> takes it off.
\<close>

datatype exn = Error string

definition invalidLatLng :: "point \<Rightarrow> bool" where
  "invalidLatLng p = (isNaN (fst p) \<or> isNaN (snd p))"

definition L_polyline :: "point list \<Rightarrow> path_options \<Rightarrow> exn + layer" where
  "L_polyline latlngs opts =
     (if list_ex invalidLatLng latlngs then Inl (Error ''Invalid LatLng object'')
      else Inr (Polyline latlngs opts))"

definition L_circleMarker :: "point \<Rightarrow> path_options \<Rightarrow> exn + layer" where
  "L_circleMarker latlng opts =
     (if invalidLatLng latlng then Inl (Error ''Invalid LatLng object'')
      else Inr (CircleMarker latlng opts))"

definition addTo :: "layer \<Rightarrow> component \<Rightarrow> component" where
  "addTo l st = st\<lparr>mapRef := map_option (\<lambda>m. m\<lparr>layers := layers m @ [l]\<rparr>) (mapRef st)\<rparr>"

section \<open>drawArcs\<close>

definition colors :: "string list" where
  "colors = [''#3B82F6'', ''#8B5CF6'', ''#EC4899'', ''#F97316'', ''#10B981'']"

text \<open>
  \<^verbatim>\<open>layer.options && layer.options.className === 'flow-arc'\<close>: the layers that a call
  removes before it draws.
\<close>

fun isFlowArc :: "layer \<Rightarrow> bool" where
  "isFlowArc (TileLayer url) = False"
| "isFlowArc (Polyline latlngs opts) = (className opts = Some ''flow-arc'')"
| "isFlowArc (CircleMarker latlng opts) = (className opts = Some ''flow-arc'')"

definition clearArcs :: "leaflet_map \<Rightarrow> leaflet_map" where
  "clearArcs m = m\<lparr>layers := filter (\<lambda>l. \<not> isFlowArc l) (layers m)\<rparr>"

text \<open>The options of the polyline \<^verbatim>\<open>arcLine\<close> and of the marker \<^verbatim>\<open>destMarker\<close>.\<close>

definition arcOptions :: "string \<Rightarrow> jsnum \<Rightarrow> path_options" where
  "arcOptions c normalized =
     \<lparr> color = c, weight = js_add (Fin 2) (js_mul normalized (Fin 3)), opacity = Fin 0.8,
       className = Some ''flow-arc'', radius = None, fillColor = None, fillOpacity = None \<rparr>"

definition markerOptions :: "string \<Rightarrow> jsnum \<Rightarrow> path_options" where
  "markerOptions c normalized =
     \<lparr> color = ''white'', weight = Fin 2, opacity = Fin 1, className = None,
       radius = Some (js_add (Fin 5) (js_mul normalized (Fin 5))),
       fillColor = Some c, fillOpacity = Some (Fin 0.8) \<rparr>"

text \<open>
  The animation of one arc: \<^verbatim>\<open>let offset = 0; const dashArray = 5 + normalizedValue * 5\<close>,
  the class added to the element, and the callback \<^verbatim>\<open>animateArc\<close>.
\<close>

definition newAnimation :: "jsnum \<Rightarrow> arc_animation" where
  "newAnimation normalized =
     \<lparr> dashArray = js_add (Fin 5) (js_mul normalized (Fin 5)), offset = Fin 0,
       stroke_dasharray = None, stroke_dashoffset = None, classList = [''animated-arc''] \<rparr>"

definition animateArc :: "arc_animation \<Rightarrow> arc_animation" where
  "animateArc a =
     (let offset' = js_mod (js_add (offset a) (Fin 1)) (js_mul (dashArray a) (Fin 2))
      in a\<lparr> offset := offset',
             stroke_dasharray := Some (dashArray a, dashArray a),
             stroke_dashoffset := Some offset' \<rparr>)"

text \<open>
  One iteration of \<^verbatim>\<open>arcsDestinations.forEach((dest, index) => { try { ... } catch ... })\<close>.
  It carries the local array \<^verbatim>\<open>allPoints\<close> and the component. An exception of
  \<^verbatim>\<open>L.polyline\<close> or \<^verbatim>\<open>L.circleMarker\<close> ends the iteration in its \<^verbatim>\<open>catch\<close>, which
  logs; what the iteration did before stays done. The interval is started, and then
  \<^verbatim>\<open>animateArc\<close> is called once.
\<close>

definition drawArc ::
  "point \<Rightarrow> jsnum \<Rightarrow> nat \<Rightarrow> DestinationPoint \<Rightarrow> point list \<times> component \<Rightarrow> point list \<times> component"
where
  "drawArc originPoint maxVisitors index dest acc =
     (let allPoints = fst acc @ [(lat dest, lng dest)];
          st = snd acc;
          normalized = normalizedValue (visitorCount dest) maxVisitors;
          colorIndex = index mod length colors;
          c = colors ! colorIndex;
          destPoint = (lat dest, lng dest);
          st1 = console_log ''Drawing arc from ['' st
      in case L_polyline (curvePoints originPoint destPoint) (arcOptions c normalized) of
           Inl e \<Rightarrow> (allPoints, console_error ''Error creating arc for'' st1)
         | Inr arcLine \<Rightarrow>
             (let st2 = addTo arcLine st1
              in case L_circleMarker destPoint (markerOptions c normalized) of
                   Inl e \<Rightarrow> (allPoints, console_error ''Error creating arc for'' st2)
                 | Inr destMarker \<Rightarrow>
                     (let st3 = addTo destMarker st2
                      in (allPoints,
                          st3\<lparr>intervals := intervals st3 @ [animateArc (newAnimation normalized)]\<rparr>))))"

text \<open>
  \<^verbatim>\<open>map.fitBounds(L.latLngBounds(allPoints.map(p => L.latLng(p[0], p[1]))), ...)\<close> in its
  own \<^verbatim>\<open>try\<close>. The view keeps the points whose bounds were fitted.
\<close>

definition fitBounds :: "point list \<Rightarrow> component \<Rightarrow> component" where
  "fitBounds allPoints st =
     (let st1 = console_log ''Setting map bounds for'' st
      in if list_ex invalidLatLng allPoints then console_error ''Error setting map bounds:'' st1
         else st1\<lparr>mapRef := map_option (\<lambda>m. m\<lparr>view := FitBounds allPoints\<rparr>) (mapRef st1)\<rparr>)"

text \<open>
  \<^verbatim>\<open>drawArcs(arcsDestinations = destinations)\<close>: the three guards, then the drawing pass.
  A call without an argument is \<open>drawArcs (destinations st) st\<close>.
\<close>

definition drawArcs :: "DestinationPoint list \<Rightarrow> component \<Rightarrow> component" where
  "drawArcs arcsDestinations st0 =
     (let st = console_log ''Manual drawArcs called with'' st0
      in case mapRef st of
           None \<Rightarrow> console_error ''Map reference is null - cannot draw arcs'' st
         | Some m \<Rightarrow>
             if arcsDestinations = []
             then console_error ''No destinations available - cannot draw arcs'' st
             else
               (case restaurantCoordinates st of
                  None \<Rightarrow>
                    console_error ''Restaurant coordinates not available - cannot draw arcs'' st
                | Some originPoint \<Rightarrow>
                    (let st1 = console_log ''DESTINATION EXAMPLE:''
                                 (console_log ''RESTAURANT COORDINATES:'' st);
                         maxVisitors = Math_max (map visitorCount arcsDestinations);
                         st2 = console_log ''Max visitors:'' st1;
                         st3 = st2\<lparr>mapRef := Some (clearArcs m)\<rparr>;
                         (allPoints, st4) =
                           foldl (\<lambda>acc (index, dest). drawArc originPoint maxVisitors index dest acc)
                             ([originPoint], st3) (enumerate 0 arcsDestinations)
                     in if 1 < length allPoints then fitBounds allPoints st4 else st4)))"

section \<open>The pulse of the restaurant marker\<close>

text \<open>
  From \<^verbatim>\<open>initializeMap\<close>: the circle marker \<^verbatim>\<open>pulse\<close> and the interval that changes its
  radius, with the closure variables \<^verbatim>\<open>size\<close> and \<^verbatim>\<open>increasing\<close>.
\<close>

definition js_ge :: "jsnum \<Rightarrow> jsnum \<Rightarrow> bool" where
  "js_ge a b = js_le b a"

record pulse_animation =
  size' :: jsnum
  increasing :: bool
  pulse :: path_options

definition pulseStart :: pulse_animation where
  "pulseStart =
     \<lparr> size' = Fin 10, increasing = True,
       pulse = \<lparr> color = ''#2563EB'', weight = Fin 1, opacity = Fin 0.3, className = None,
                 radius = Some (Fin 10), fillColor = Some ''#3B82F6'',
                 fillOpacity = Some (Fin 0.3) \<rparr> \<rparr>"

definition pulseTick :: "pulse_animation \<Rightarrow> pulse_animation" where
  "pulseTick p =
     (let p1 =
            (if increasing p then
               (let s = js_add (size' p) (Fin 0.5)
                in p\<lparr>size' := s,
                     increasing := (if js_ge s (Fin 25) then False else increasing p)\<rparr>)
             else
               (let s = js_sub (size' p) (Fin 0.5)
                in p\<lparr>size' := s,
                     increasing := (if js_le s (Fin 10) then True else increasing p)\<rparr>))
      in p1\<lparr>pulse := (pulse p1)\<lparr>radius := Some (size' p1)\<rparr>\<rparr>)"

section \<open>Example values\<close>

text \<open>A map as \<^verbatim>\<open>initializeMap\<close> leaves it, and destinations, for the examples.\<close>

definition baseMap :: leaflet_map where
  "baseMap = \<lparr> layers = [TileLayer ''voyager''], view = SetView (Fin 41, Fin 29) (Fin 15) \<rparr>"

definition aksam :: DestinationPoint where
  "aksam =
     \<lparr> name = JStr ''AKSAM KADIKOY'', lat = Fin 40.98, lng = Fin 29.02, visitorCount = Fin 209,
       type = JStr ''Geleneksel Meyhane'' \<rparr>"

text \<open>
  Rows of a destination file: three in the \<^verbatim>\<open>KoordinatX\<close>/\<^verbatim>\<open>KoordinatY\<close> convention
  with a decimal comma, one in the \<^verbatim>\<open>latitude\<close>/\<^verbatim>\<open>longitude\<close> convention, and a row
  on the equator.
\<close>

definition emptyRow :: csv_row where
  "emptyRow =
     \<lparr> KoordinatX = Undefined, KoordinatY = Undefined, latitude = Undefined,
       longitude = Undefined, visitor_count = Undefined, place_name = Undefined,
       MusteriTabelaAdi = Undefined, MusteriCesidi = Undefined \<rparr>"

definition exampleRow :: csv_row where
  "exampleRow =
     emptyRow\<lparr> KoordinatX := JStr ''40,98'', KoordinatY := JStr ''29,02'',
       visitor_count := JNum (Fin 150) \<rparr>"

definition rowAksam :: csv_row where
  "rowAksam =
     emptyRow\<lparr> KoordinatX := JStr ''40,98'', KoordinatY := JStr ''29,02'',
       visitor_count := JNum (Fin 209), MusteriTabelaAdi := JStr ''AKSAM KADIKOY'',
       MusteriCesidi := JStr ''Geleneksel Meyhane'' \<rparr>"

definition rowFil :: csv_row where
  "rowFil =
     emptyRow\<lparr> latitude := JNum (Fin 40.97), longitude := JNum (Fin 29.03),
       visitor_count := JNum (Fin 179), place_name := JStr ''Fil bistro moda'' \<rparr>"

definition rowYer :: csv_row where
  "rowYer =
     emptyRow\<lparr> KoordinatX := JStr ''40,99'', KoordinatY := JStr ''29,01'',
       visitor_count := JNum (Fin 100), MusteriTabelaAdi := JStr ''Yer Cafe'' \<rparr>"

definition rowRita :: csv_row where
  "rowRita =
     emptyRow\<lparr> KoordinatX := JStr ''40,96'', KoordinatY := JStr ''29,04'',
       visitor_count := JNum (Fin 179), MusteriTabelaAdi := JStr ''Rita Moda'' \<rparr>"

definition equatorRow :: csv_row where
  "equatorRow =
     emptyRow\<lparr> latitude := JNum (Fin 0), longitude := JNum (Fin 29.02),
       visitor_count := JNum (Fin 150) \<rparr>"

definition destFil :: DestinationPoint where
  "destFil =
     \<lparr> name = JStr ''Fil bistro moda'', lat = Fin 40.97, lng = Fin 29.03,
       visitorCount = Fin 179, type = JStr ''Unspecified'' \<rparr>"

definition destRita :: DestinationPoint where
  "destRita =
     \<lparr> name = JStr ''Rita Moda'', lat = Fin 40.96, lng = Fin 29.04,
       visitorCount = Fin 179, type = JStr ''Unspecified'' \<rparr>"

definition destYer :: DestinationPoint where
  "destYer =
     \<lparr> name = JStr ''Yer Cafe'', lat = Fin 40.99, lng = Fin 29.01,
       visitorCount = Fin 100, type = JStr ''Unspecified'' \<rparr>"

text \<open>
  A component whose map is ready, with the restaurant at \<open>(41, 29)\<close>, and a destination
  at the restaurant itself.
\<close>

definition restaurant :: point where
  "restaurant = (Fin 41, Fin 29)"

definition ready :: component where
  "ready =
     \<lparr> mapRef = Some baseMap, restaurantCoordinates = Some restaurant, destinations = [],
       intervals = [], console = [] \<rparr>"

definition atRestaurant :: DestinationPoint where
  "atRestaurant =
     \<lparr> name = JStr ''At the door'', lat = Fin 41, lng = Fin 29, visitorCount = Fin 300,
       type = JStr ''Unspecified'' \<rparr>"

section \<open>Notions for the statements\<close>

text \<open>
  The number whose square root divides in \<^verbatim>\<open>normFactor\<close>: \<^verbatim>\<open>dx * dx + dy * dy\<close>, as the
  code computes it.
\<close>

definition squaredNorm :: "point \<Rightarrow> point \<Rightarrow> jsnum" where
  "squaredNorm p0 p1 =
     js_add (js_mul (dx p0 p1) (dx p0 p1)) (js_mul (dy p0 p1) (dy p0 p1))"

text \<open>
  A destination list is ranked when the visitor counts do not increase along it, and its
  counts are finite when none is \<^verbatim>\<open>NaN\<close> or infinite.
\<close>

definition ranked :: "DestinationPoint list \<Rightarrow> bool" where
  "ranked dests = sorted_wrt (\<lambda>a b. js_le (visitorCount b) (visitorCount a)) dests"

definition finiteCount :: "DestinationPoint \<Rightarrow> bool" where
  "finiteCount dest = (case visitorCount dest of Fin v \<Rightarrow> True | _ \<Rightarrow> False)"

text \<open>
  What one iteration of the loop of \<^verbatim>\<open>drawArcs\<close> leaves behind. The arc of a destination
  fails when \<^verbatim>\<open>L.polyline\<close> refuses a point of its curve; then the iteration adds no
  layer and no interval, and logs the error. Otherwise it adds the polyline and the marker
  and starts the animation.
\<close>

definition arcFails :: "point \<Rightarrow> DestinationPoint \<Rightarrow> bool" where
  "arcFails originPoint dest =
     list_ex invalidLatLng (curvePoints originPoint (lat dest, lng dest))"

definition arcLayers :: "point \<Rightarrow> jsnum \<Rightarrow> nat \<Rightarrow> DestinationPoint \<Rightarrow> layer list" where
  "arcLayers originPoint maxVisitors index dest =
     (if arcFails originPoint dest then []
      else [Polyline (curvePoints originPoint (lat dest, lng dest))
              (arcOptions (colors ! (index mod length colors))
                 (normalizedValue (visitorCount dest) maxVisitors)),
            CircleMarker (lat dest, lng dest)
              (markerOptions (colors ! (index mod length colors))
                 (normalizedValue (visitorCount dest) maxVisitors))])"

definition arcAnimations :: "point \<Rightarrow> jsnum \<Rightarrow> DestinationPoint \<Rightarrow> arc_animation list" where
  "arcAnimations originPoint maxVisitors dest =
     (if arcFails originPoint dest then []
      else [animateArc (newAnimation (normalizedValue (visitorCount dest) maxVisitors))])"

definition arcLog :: "point \<Rightarrow> DestinationPoint \<Rightarrow> console_entry list" where
  "arcLog originPoint dest =
     (if arcFails originPoint dest
      then [ConsoleLog ''Drawing arc from ['', ConsoleError ''Error creating arc for'']
      else [ConsoleLog ''Drawing arc from [''])"

text \<open>
  The invariant of the pulse: \<^verbatim>\<open>size\<close> is a half of an integer between 20 and 50, below
  the upper bound while the radius grows and above the lower bound while it shrinks.
\<close>

definition pulse_inv :: "pulse_animation \<Rightarrow> bool" where
  "pulse_inv p =
     (\<exists>k::int. size' p = Fin (of_int k / 2) \<and> 20 \<le> k \<and> k \<le> 50 \<and>
        (if increasing p then k \<le> 49 else 21 \<le> k))"

section \<open>Evaluation of the sampling loop\<close>

lemma sampleTs_0_int:
  "map int (sampleTs 0) =
    [0, 7205759403792794, 14411518807585588, 21617278211378384, 28823037615171176,
     36028797018963968, 43234556422756760, 50440315826549552, 57646075230342344,
     64851834634135136, 72057594037927928, 79263353441720720, 86469112845513520,
     93674872249306320, 100880631653099120, 108086391056891920, 115292150460684720,
     122497909864477520, 129703669268270320, 136909428672063120]"
  by (simp add: sampleTs.simps fl53_def round_half_even_def bitlen.simps one57_def
      step_0_05_def Let_def)

lemma sampleTs_0:
  "sampleTs 0 =
    [0, 7205759403792794, 14411518807585588, 21617278211378384, 28823037615171176,
     36028797018963968, 43234556422756760, 50440315826549552, 57646075230342344,
     64851834634135136, 72057594037927928, 79263353441720720, 86469112845513520,
     93674872249306320, 100880631653099120, 108086391056891920, 115292150460684720,
     122497909864477520, 129703669268270320, 136909428672063120]"
proof -
  have "inj int" by simp
  then show ?thesis
    by (rule inj_map_eq_map [THEN iffD1]) (simp add: sampleTs_0_int)
qed

lemma length_sampleTs_0: "length (sampleTs 0) = 20"
  by (simp add: sampleTs_0)

lemma length_curvePoints: "length (curvePoints p0 p1) = 20"
  by (simp add: curvePoints_def length_sampleTs_0)

section \<open>Arithmetic with the special values\<close>

lemmas geometry_defs = normalizedValue_def midX_def midY_def distance_def controlHeight_def
  dx_def dy_def normFactor_def perpX_def perpY_def controlPoint_def bezier_def bezierPoint_def
  js_sub_def inf_times_def

lemma js_add_NaN [simp]: "js_add a NaN = NaN" "js_add NaN a = NaN"
  by (cases a; simp)+

lemma js_mul_NaN [simp]: "js_mul a NaN = NaN" "js_mul NaN a = NaN"
  by (cases a; simp)+

lemma bezier_NaN: "bezier t a NaN b = NaN"
  by (simp add: bezier_def)

lemma controlPoint_0_10: "controlPoint (Fin 0, Fin 0) (Fin 0, Fin 10) = (Fin (- 2), Fin 5)"
  by (simp add: geometry_defs real_sqrt_abs2 power2_eq_square)

section \<open>The control point of distinct end points\<close>

lemma normalizedValue_Fin:
  assumes "m \<noteq> 0"
  shows "normalizedValue (Fin v) (Fin m) = Fin (0.3 + v / m * 0.7)"
  using assms by (simp add: normalizedValue_def)

lemma norm_pos:
  fixes a b :: real
  assumes "a \<noteq> 0 \<or> b \<noteq> 0"
  shows "0 < a * a + b * b"
  using assms by (metis not_sum_squares_lt_zero antisym_conv3 sum_squares_eq_zero_iff)

lemma controlPoint_Fin:
  assumes "(ox, oy) \<noteq> (x, y)"
  shows "controlPoint (Fin ox, Fin oy) (Fin x, Fin y) =
     (let d = sqrt ((x - ox)\<^sup>2 + (y - oy)\<^sup>2)
      in (Fin ((ox + x) / 2 + (- (y - oy) * (1 / d)) * (d * 0.2)),
          Fin ((oy + y) / 2 + ((x - ox) * (1 / d)) * (d * 0.2))))"
proof -
  from assms have "x - ox \<noteq> 0 \<or> y - oy \<noteq> 0" by auto
  then have p: "0 < (x - ox) * (x - ox) + (y - oy) * (y - oy)" by (rule norm_pos)
  from real_sqrt_gt_zero [OF p]
  have q: "sqrt ((x - ox) * (x - ox) + (y - oy) * (y - oy)) \<noteq> 0" by linarith
  have r: "\<not> (x - ox) * (x - ox) + (y - oy) * (y - oy) < 0" using p by simp
  show ?thesis
    using q r by (simp add: geometry_defs Let_def power2_eq_square)
qed

lemma squaredNorm_Fin:
  "squaredNorm (Fin ox, Fin oy) (Fin x, Fin y) = Fin ((x - ox) * (x - ox) + (y - oy) * (y - oy))"
  by (simp add: squaredNorm_def dx_def dy_def js_sub_def)

lemma squaredNorm_zero_iff:
  "squaredNorm (Fin ox, Fin oy) (Fin x, Fin y) = Fin 0 \<longleftrightarrow> (ox, oy) = (x, y)"
  by (auto simp: squaredNorm_Fin)

section \<open>The dash animation\<close>

lemma js_mod_of_nat:
  assumes "0 < n"
  shows "js_mod (Fin (real m)) (Fin (real n)) = Fin (real (m mod n))"
proof -
  have "trunc (real m / real n) = int (m div n)"
    by (simp add: trunc_def floor_divide_of_nat_eq)
  moreover have "real m - real n * real (m div n) = real (m mod n)"
    by (metis add_diff_cancel_left' mult_div_mod_eq of_nat_add of_nat_mult)
  ultimately show ?thesis using assms by simp
qed

lemma animateArc_fields [simp]:
  "dashArray (animateArc a) = dashArray a"
  "offset (animateArc a) = js_mod (js_add (offset a) (Fin 1)) (js_mul (dashArray a) (Fin 2))"
  "stroke_dasharray (animateArc a) = Some (dashArray a, dashArray a)"
  "stroke_dashoffset (animateArc a) = Some (offset (animateArc a))"
  "classList (animateArc a) = classList a"
  by (simp_all add: animateArc_def Let_def)

lemma dashArray_funpow [simp]: "dashArray ((animateArc ^^ t) a) = dashArray a"
  by (induction t) simp_all

lemma offset_funpow_10:
  "offset ((animateArc ^^ t) (a\<lparr>dashArray := Fin 10, offset := Fin 0\<rparr>)) = Fin (real (t mod 20))"
proof (induction t)
  case 0
  show ?case by simp
next
  case (Suc t)
  have "js_mod (Fin (real (Suc (t mod 20)))) (Fin (real (20::nat))) =
      Fin (real (Suc (t mod 20) mod 20))"
    by (rule js_mod_of_nat) simp
  then show ?case using Suc by (simp add: mod_Suc_eq add.commute)
qed

section \<open>The pulse\<close>

lemma pulse_inv_start: "pulse_inv pulseStart"
  unfolding pulse_inv_def pulseStart_def by (intro exI [of _ 20]) simp

lemma pulse_inv_tick:
  assumes "pulse_inv p"
  shows "pulse_inv (pulseTick p)"
proof -
  from assms obtain k :: int where k: "size' p = Fin (of_int k / 2)" "20 \<le> k" "k \<le> 50"
    and d: "if increasing p then k \<le> 49 else 21 \<le> k"
    unfolding pulse_inv_def by blast
  show ?thesis
  proof (cases "increasing p")
    case True
    with d have "k \<le> 49" by simp
    have s: "size' (pulseTick p) = Fin (of_int (k + 1) / 2)"
      using True k by (simp add: pulseTick_def Let_def field_simps)
    have i: "increasing (pulseTick p) = (k + 1 < 50)"
      using True k by (auto simp: pulseTick_def Let_def js_ge_def field_simps)
    show ?thesis unfolding pulse_inv_def
      using s i k \<open>k \<le> 49\<close> by (intro exI [of _ "k + 1"]) auto
  next
    case False
    with d have "21 \<le> k" by simp
    have s: "size' (pulseTick p) = Fin (of_int (k - 1) / 2)"
      using False k by (simp add: pulseTick_def Let_def js_sub_def field_simps)
    have i: "increasing (pulseTick p) = (k - 1 \<le> 20)"
      using False k by (auto simp: pulseTick_def Let_def js_sub_def field_simps)
    show ?thesis unfolding pulse_inv_def
      using s i k \<open>21 \<le> k\<close> by (intro exI [of _ "k - 1"]) auto
  qed
qed

lemma pulse_inv_funpow: "pulse_inv ((pulseTick ^^ n) pulseStart)"
  by (induction n) (simp_all add: pulse_inv_start pulse_inv_tick)

lemma pulse_inv_bounds:
  assumes "pulse_inv p"
  shows "\<exists>s. size' p = Fin s \<and> 10 \<le> s \<and> s \<le> 25"
proof -
  from assms obtain k :: int where "size' p = Fin (of_int k / 2)" "20 \<le> k" "k \<le> 50"
    unfolding pulse_inv_def by blast
  then show ?thesis by (intro exI [of _ "of_int k / 2"]) simp
qed

lemma pulseTick_fields:
  "size' (pulseTick p) =
     (if increasing p then js_add (size' p) (Fin 0.5) else js_sub (size' p) (Fin 0.5))"
  "increasing (pulseTick p) =
     (if increasing p then \<not> js_ge (size' (pulseTick p)) (Fin 25)
      else js_le (size' (pulseTick p)) (Fin 10))"
  "radius (pulse (pulseTick p)) = Some (size' (pulseTick p))"
  "opacity (pulse (pulseTick p)) = opacity (pulse p)"
  "fillOpacity (pulse (pulseTick p)) = fillOpacity (pulse p)"
  by (simp_all add: pulseTick_def Let_def)

lemma pulse_opacity_funpow:
  "opacity (pulse ((pulseTick ^^ n) pulseStart)) = Fin 0.3 \<and>
   fillOpacity (pulse ((pulseTick ^^ n) pulseStart)) = Some (Fin 0.3)"
  by (induction n) (simp_all add: pulseTick_fields, simp add: pulseStart_def)

text \<open>The first thirty ticks: the radius grows from 10 to 25.\<close>

lemma pulse_up:
  "n \<le> 30 \<Longrightarrow>
     size' ((pulseTick ^^ n) pulseStart) = Fin (10 + real n / 2) \<and>
     increasing ((pulseTick ^^ n) pulseStart) = (n < 30)"
proof (induction n)
  case 0
  then show ?case by (simp add: pulseStart_def)
next
  case (Suc n)
  then have ih: "size' ((pulseTick ^^ n) pulseStart) = Fin (10 + real n / 2)"
    "increasing ((pulseTick ^^ n) pulseStart)" by simp_all
  show ?case using Suc.prems
    by (auto simp: pulseTick_fields ih js_ge_def field_simps)
qed

section \<open>The stable sort and the slice\<close>

lemma js_gt_sub_neq: "js_gt (js_sub b a) (Fin 0) \<Longrightarrow> a \<noteq> b"
  by (cases a; cases b; simp add: js_gt_def js_sub_def)

lemma js_gt_sub_Fin [simp]: "js_gt (js_sub (Fin b) (Fin a)) (Fin 0) = (a < b)"
  by (simp add: js_gt_def js_sub_def)

lemma length_insert_by [simp]: "length (insert_by cmp x ys) = Suc (length ys)"
  by (induction ys) simp_all

lemma mset_insert_by [simp]: "mset (insert_by cmp x ys) = add_mset x (mset ys)"
  by (induction ys) simp_all

lemma set_insert_by [simp]: "set (insert_by cmp x ys) = insert x (set ys)"
  by (induction ys) auto

lemma length_sort_js [simp]: "length (sort_js cmp xs) = length xs"
  by (induction xs) (simp_all add: sort_js_def)

lemma mset_sort_js [simp]: "mset (sort_js cmp xs) = mset xs"
  by (induction xs) (simp_all add: sort_js_def)

lemma set_sort_js [simp]: "set (sort_js cmp xs) = set xs"
  by (induction xs) (simp_all add: sort_js_def)

lemma filter_insert_by:
  "filter (\<lambda>d. visitorCount d = k) (insert_by byVisitorCount x ys) =
     (if visitorCount x = k then x # filter (\<lambda>d. visitorCount d = k) ys
      else filter (\<lambda>d. visitorCount d = k) ys)"
proof (induction ys)
  case Nil
  show ?case by simp
next
  case (Cons y ys)
  show ?case
  proof (cases "js_gt (byVisitorCount x y) (Fin 0)")
    case True
    then have "visitorCount x \<noteq> visitorCount y"
      unfolding byVisitorCount_def by (rule js_gt_sub_neq)
    with True Cons show ?thesis by auto
  next
    case False
    then show ?thesis by simp
  qed
qed

lemma filter_sort_js:
  "filter (\<lambda>d. visitorCount d = k) (sort_js byVisitorCount xs) =
     filter (\<lambda>d. visitorCount d = k) xs"
  by (induction xs) (simp_all add: sort_js_def filter_insert_by)

lemma finiteCount_iff: "finiteCount d = (\<exists>v. visitorCount d = Fin v)"
  by (cases "visitorCount d") (simp_all add: finiteCount_def)

lemma ranked_insert_by:
  assumes "finiteCount x" "list_all finiteCount ys" "ranked ys"
  shows "ranked (insert_by byVisitorCount x ys)"
  using assms
proof (induction ys)
  case Nil
  show ?case by (simp add: ranked_def)
next
  case (Cons y ys)
  from Cons.prems obtain a b where a: "visitorCount x = Fin a" and b: "visitorCount y = Fin b"
    by (auto simp: finiteCount_iff)
  have ih: "ranked (insert_by byVisitorCount x ys)"
    using Cons by (simp add: ranked_def)
  have g: "js_gt (byVisitorCount x y) (Fin 0) = (a < b)"
    using a b by (simp add: byVisitorCount_def)
  show ?case
  proof (cases "a < b")
    case True
    have "\<forall>z \<in> set ys. js_le (visitorCount z) (visitorCount y)"
      using Cons.prems by (simp add: ranked_def)
    with True ih a b show ?thesis
      by (auto simp: ranked_def g)
  next
    case False
    have "\<forall>z \<in> set ys. js_le (visitorCount z) (visitorCount x)"
    proof
      fix z assume z: "z \<in> set ys"
      with Cons.prems have "js_le (visitorCount z) (visitorCount y)" by (simp add: ranked_def)
      moreover from z Cons.prems obtain c where "visitorCount z = Fin c"
        by (auto simp: finiteCount_iff list_all_iff)
      ultimately show "js_le (visitorCount z) (visitorCount x)"
        using False a b by simp
    qed
    with False a b Cons.prems show ?thesis
      by (auto simp: ranked_def g)
  qed
qed

lemma list_all_insert_by [simp]:
  "list_all P (insert_by cmp x ys) = (P x \<and> list_all P ys)"
  by (simp add: list_all_iff)

lemma list_all_sort_js [simp]: "list_all P (sort_js cmp xs) = list_all P xs"
  by (simp add: list_all_iff)

lemma ranked_sort_js:
  assumes "list_all finiteCount xs"
  shows "ranked (sort_js byVisitorCount xs)"
  using assms
proof (induction xs)
  case Nil
  show ?case by (simp add: sort_js_def ranked_def)
next
  case (Cons x xs)
  then have "ranked (sort_js byVisitorCount xs)" by simp
  moreover have "list_all finiteCount (sort_js byVisitorCount xs)" using Cons.prems by simp
  ultimately have "ranked (insert_by byVisitorCount x (sort_js byVisitorCount xs))"
    using Cons.prems by (intro ranked_insert_by) simp_all
  then show ?case by (simp add: sort_js_def)
qed

lemma sort_js_ranked:
  assumes "list_all finiteCount xs" "ranked xs"
  shows "sort_js byVisitorCount xs = xs"
  using assms
proof (induction xs)
  case Nil
  show ?case by (simp add: sort_js_def)
next
  case (Cons x xs)
  then have ih: "sort_js byVisitorCount xs = xs" by (simp add: ranked_def)
  have "insert_by byVisitorCount x xs = x # xs"
  proof (cases xs)
    case Nil
    then show ?thesis by simp
  next
    case (Cons y ys)
    with Cons.prems obtain a b where "visitorCount x = Fin a" "visitorCount y = Fin b" "b \<le> a"
      by (auto simp: finiteCount_iff ranked_def)
    with Cons show ?thesis by (simp add: byVisitorCount_def)
  qed
  then show ?case by (simp add: sort_js_def ih [unfolded sort_js_def])
qed

lemma slice0_nonneg: "0 \<le> e \<Longrightarrow> slice0 e xs = take (nat e) xs"
  by (auto simp: slice0_def Let_def min_def)

lemma ranked_take: "ranked xs \<Longrightarrow> ranked (take n xs)"
  unfolding ranked_def by (rule sorted_wrt_take)

lemma length_slice0: "0 \<le> e \<Longrightarrow> int (length (slice0 e xs)) = min (int (length xs)) e"
  by (auto simp: slice0_nonneg)

lemma list_all_take: "list_all P xs \<Longrightarrow> list_all P (take n xs)"
  by (auto simp: list_all_iff dest: in_set_takeD)

section \<open>The row pipeline\<close>

lemmas parse_defs = is_ws_def digit_val_def is_digit_def digits_value_def scale10_def
  exponent_part_def unsigned_decimal_def unsigned_literal_def decimal_literal_def
  parseInt_string_def parseInt_number_def trim_def radix_literal_def stringToNumber_def
  parseCoordinate_def Let_def

lemmas row_defs = hasCoordinates_def hasVisitors_def rowFilter_def koordinatX_def koordinatY_def
  toDestination_def validCoordinates_def destFilter_def validDestinations_def js_and_def
  js_or_def js_gt_def

lemma truthy_js_and [simp]: "truthy (js_and a b) = (truthy a \<and> truthy b)"
  by (simp add: js_and_def)

lemma truthy_js_or [simp]: "truthy (js_or a b) = (truthy a \<or> truthy b)"
  by (simp add: js_or_def)

lemma rowFilter_iff:
  "rowFilter row =
     ((truthy (KoordinatX row) \<and> truthy (KoordinatY row) \<or>
       truthy (latitude row) \<and> truthy (longitude row)) \<and>
      truthy (visitor_count row) \<and> js_gt (toNumber (visitor_count row)) (Fin 0))"
  by (simp add: rowFilter_def hasCoordinates_def hasVisitors_def)

lemma in_range_iff:
  "(\<not> isNaN a \<and> js_le (Math_abs a) (Fin b)) = (\<exists>x. a = Fin x \<and> \<bar>x\<bar> \<le> b)"
  by (cases a) auto

lemma parseInt_string_cases:
  "parseInt_string s = NaN \<or> (\<exists>n::int. parseInt_string s = Fin (of_int n))"
proof -
  have "\<exists>n::int. - real k = of_int n" for k :: nat
    by (rule exI [of _ "- int k"]) simp
  moreover have "\<exists>n::int. real k = of_int n" for k :: nat
    by (rule exI [of _ "int k"]) simp
  ultimately show ?thesis
    by (simp add: parseInt_string_def Let_def)
qed

lemma parseInt_number_int: "\<exists>n::int. parseInt_number a = of_int n"
proof -
  have "\<exists>n::int. - real_of_int k = of_int n" for k :: int
    by (rule exI [of _ "- k"]) simp
  then show ?thesis
    by (auto simp: parseInt_number_def Let_def)
qed

lemma parseInt_cases: "parseInt t = NaN \<or> (\<exists>n::int. parseInt t = Fin (of_int n))"
  using parseInt_string_cases parseInt_number_int by (cases t) auto

lemma positive_count_iff:
  "js_gt (parseInt t) (Fin 0) = (\<exists>n::int. parseInt t = Fin (of_int n) \<and> 0 < n)"
  using parseInt_cases [of t] by (auto simp: js_gt_def)

lemma destFilter_iff:
  "destFilter (toDestination row) =
     ((\<exists>x y. lat (toDestination row) = Fin x \<and> lng (toDestination row) = Fin y \<and>
             \<bar>x\<bar> \<le> 90 \<and> \<bar>y\<bar> \<le> 180) \<and>
      (\<exists>n::int. visitorCount (toDestination row) = Fin (of_int n) \<and> 0 < n))"
proof -
  have v: "js_gt (visitorCount (toDestination row)) (Fin 0) =
      (\<exists>n::int. visitorCount (toDestination row) = Fin (of_int n) \<and> 0 < n)"
    by (simp add: toDestination_def positive_count_iff)
  have "validCoordinates (toDestination row) =
      ((\<exists>x. lat (toDestination row) = Fin x \<and> \<bar>x\<bar> \<le> 90) \<and>
       (\<exists>y. lng (toDestination row) = Fin y \<and> \<bar>y\<bar> \<le> 180))"
    unfolding validCoordinates_def
    using in_range_iff [of "lat (toDestination row)" 90]
      in_range_iff [of "lng (toDestination row)" 180] by blast
  then show ?thesis unfolding destFilter_def v by blast
qed

lemma validDestinations_single:
  "validDestinations [row] =
     (if rowFilter row \<and> destFilter (toDestination row) then [toDestination row] else [])"
  by (simp add: validDestinations_def)

lemma validDestinations_concat:
  "validDestinations rows = concat (map (\<lambda>row. validDestinations [row]) rows)"
  by (induction rows) (simp_all add: validDestinations_def)

lemma validDestinations_finite:
  "list_all finiteCount (validDestinations rows)"
proof -
  have "finiteCount (toDestination row)" if "destFilter (toDestination row)" for row
    using that unfolding destFilter_iff finiteCount_iff by blast
  then show ?thesis
    by (auto simp: validDestinations_def list_all_iff)
qed

text \<open>The destinations of the example rows.\<close>

lemma toDestination_rowAksam: "toDestination rowAksam = aksam"
  by (simp add: rowAksam_def aksam_def emptyRow_def row_defs parse_defs)

lemma toDestination_rowFil: "toDestination rowFil = destFil"
  by (simp add: rowFil_def destFil_def emptyRow_def row_defs parse_defs)

lemma toDestination_rowYer: "toDestination rowYer = destYer"
  by (simp add: rowYer_def destYer_def emptyRow_def row_defs parse_defs)

lemma toDestination_rowRita: "toDestination rowRita = destRita"
  by (simp add: rowRita_def destRita_def emptyRow_def row_defs parse_defs)

lemma rowFilter_examples:
  "rowFilter rowAksam" "rowFilter rowFil" "rowFilter rowYer" "rowFilter rowRita"
  by (simp_all add: rowFilter_iff rowAksam_def rowFil_def rowYer_def rowRita_def emptyRow_def
      js_gt_def)

lemma destFilter_examples:
  "destFilter aksam" "destFilter destFil" "destFilter destYer" "destFilter destRita"
  by (simp_all add: destFilter_def validCoordinates_def js_gt_def aksam_def destFil_def
      destYer_def destRita_def)

lemma validDestinations_examples:
  "validDestinations [rowFil, rowAksam, rowRita, rowYer] = [destFil, aksam, destRita, destYer]"
  "validDestinations [rowAksam, rowFil, rowYer] = [aksam, destFil, destYer]"
  by (simp_all add: validDestinations_def rowFilter_examples destFilter_examples
      toDestination_rowAksam toDestination_rowFil toDestination_rowYer toDestination_rowRita)

lemma validDestinations_unranked:
  "validDestinations [rowYer, rowFil, rowAksam] = [destYer, destFil, aksam]"
  by (simp add: validDestinations_def rowFilter_examples destFilter_examples
      toDestination_rowAksam toDestination_rowFil toDestination_rowYer)

section \<open>The examples of the selection\<close>

lemma sort_example:
  "sort_js byVisitorCount [destFil, aksam, destRita, destYer] = [aksam, destFil, destRita, destYer]"
  by (simp add: sort_js_def byVisitorCount_def js_gt_def js_sub_def aksam_def destFil_def
      destRita_def destYer_def)

section \<open>The rank of the selected destinations\<close>

lemma foldl_max2_le:
  assumes "\<forall>d \<in> set ds. \<exists>v. visitorCount d = Fin v \<and> v \<le> a"
  shows "foldl max2 (Fin a) (map visitorCount ds) = Fin a"
  using assms
proof (induction ds)
  case Nil
  show ?case by simp
next
  case (Cons d ds)
  then obtain v where "visitorCount d = Fin v" "v \<le> a" by auto
  then have "max2 (Fin a) (visitorCount d) = Fin a" by (simp add: max2_def)
  with Cons show ?case by simp
qed

lemma Math_max_ranked:
  assumes "list_all finiteCount ds" "ranked ds" "ds \<noteq> []"
  shows "Math_max (map visitorCount ds) = visitorCount (ds ! 0)"
proof -
  from assms(3) obtain d ds' where ds: "ds = d # ds'" by (cases ds) auto
  from assms(1) ds obtain a where a: "visitorCount d = Fin a"
    by (auto simp: finiteCount_iff)
  have "\<forall>z \<in> set ds'. \<exists>v. visitorCount z = Fin v \<and> v \<le> a"
  proof
    fix z assume z: "z \<in> set ds'"
    with assms(1) ds obtain v where v: "visitorCount z = Fin v"
      by (auto simp: finiteCount_iff list_all_iff)
    from z assms(2) ds have "js_le (visitorCount z) (visitorCount d)"
      by (simp add: ranked_def)
    with v a show "\<exists>v. visitorCount z = Fin v \<and> v \<le> a" by simp
  qed
  then have "foldl max2 (Fin a) (map visitorCount ds') = Fin a" by (rule foldl_max2_le)
  then show ?thesis by (simp add: Math_max_def ds a max2_def)
qed

lemma ranked_nth_le:
  assumes "ranked ds" "list_all finiteCount ds" "i \<le> j" "j < length ds"
  shows "js_le (visitorCount (ds ! j)) (visitorCount (ds ! i))"
proof (cases "i = j")
  case True
  from assms(2,4) obtain v where "visitorCount (ds ! j) = Fin v"
    by (auto simp: finiteCount_iff list_all_length)
  with True show ?thesis by simp
next
  case False
  with assms(3) have l: "i < j" by simp
  from sorted_wrt_nth_less [OF assms(1) [unfolded ranked_def] l assms(4)]
  show ?thesis .
qed

lemma topDestinations_rank:
  assumes "0 \<le> maxArcs" and "dests = topDestinations maxArcs rows" and "index < length dests"
  shows "Math_max (map visitorCount dests) = visitorCount (dests ! 0)"
    and "\<forall>j<index. js_le (visitorCount (dests ! index)) (visitorCount (dests ! j))"
    and "\<forall>d \<in> set (validDestinations rows).
           d \<in> set (take index dests) \<or> js_le (visitorCount d) (visitorCount (dests ! index))"
proof -
  let ?V = "validDestinations rows"
  let ?S = "sort_js byVisitorCount ?V"
  have fin: "list_all finiteCount ?S" by (simp add: validDestinations_finite)
  have rS: "ranked ?S" by (intro ranked_sort_js validDestinations_finite)
  have t: "dests = take (nat maxArcs) ?S"
    using assms(1,2) by (simp add: topDestinations_def sortSlice_def slice0_nonneg)
  have r: "ranked dests" unfolding t using rS by (rule ranked_take)
  have f: "list_all finiteCount dests" unfolding t using fin by (rule list_all_take)
  from assms(3) have ne: "dests \<noteq> []" by auto
  show "Math_max (map visitorCount dests) = visitorCount (dests ! 0)"
    using f r ne by (rule Math_max_ranked)
  show "\<forall>j<index. js_le (visitorCount (dests ! index)) (visitorCount (dests ! j))"
    using r f assms(3) by (auto intro: ranked_nth_le)
  from assms(3) have i: "index < nat maxArcs" "index < length ?S" by (simp_all add: t)
  then have n: "dests ! index = ?S ! index" by (simp add: t)
  have tk: "take index dests = take index ?S"
    using i by (simp add: t min_def)
  show "\<forall>d \<in> set ?V.
      d \<in> set (take index dests) \<or> js_le (visitorCount d) (visitorCount (dests ! index))"
  proof
    fix d assume "d \<in> set ?V"
    then have "d \<in> set ?S" by simp
    then have "\<exists>k<length ?S. ?S ! k = d" unfolding in_set_conv_nth .
    then obtain k where k: "k < length ?S" "?S ! k = d" by blast
    show "d \<in> set (take index dests) \<or> js_le (visitorCount d) (visitorCount (dests ! index))"
    proof (cases "k < index")
      case True
      with k have "d \<in> set (take index ?S)" by (auto simp: in_set_conv_nth)
      then show ?thesis by (simp add: tk)
    next
      case False
      then have "index \<le> k" by simp
      from ranked_nth_le [OF rS fin this k(1)] k(2) n show ?thesis by simp
    qed
  qed
qed

section \<open>The loop of drawArcs\<close>

lemma hd_sampleTs_0: "sampleTs 0 = 0 # tl (sampleTs 0)"
  by (simp add: sampleTs_0)

lemma bezier_0_NaN: "bezier (Fin 0) a c NaN = NaN"
  by (simp add: bezier_def)

lemma curve_valid_dest:
  assumes "\<not> list_ex invalidLatLng (curvePoints p0 p1)"
  shows "\<not> invalidLatLng p1"
proof
  assume i: "invalidLatLng p1"
  have "bezierPoint p0 (controlPoint p0 p1) p1 (t_value 0) \<in> set (curvePoints p0 p1)"
    unfolding curvePoints_def by (subst hd_sampleTs_0) simp
  moreover have "invalidLatLng (bezierPoint p0 (controlPoint p0 p1) p1 (t_value 0))"
    using i by (cases p1) (auto simp: invalidLatLng_def bezierPoint_def t_value_def bezier_0_NaN
        elim: isNaN.elims)
  ultimately show False using assms by (auto simp: list_ex_iff)
qed

lemma drawArc_effect:
  assumes "mapRef st = Some m"
  shows "drawArc originPoint mx i d (ps, st) =
    (ps @ [(lat d, lng d)],
     st\<lparr>mapRef := Some (m\<lparr>layers := layers m @ arcLayers originPoint mx i d\<rparr>),
        intervals := intervals st @ arcAnimations originPoint mx d,
        console := console st @ arcLog originPoint d\<rparr>)"
proof (cases "arcFails originPoint d")
  case True
  then show ?thesis
    using assms
    by (simp add: drawArc_def Let_def L_polyline_def arcFails_def arcLayers_def
        arcAnimations_def arcLog_def console_log_def console_error_def)
next
  case False
  then have "\<not> invalidLatLng (lat d, lng d)"
    unfolding arcFails_def by (rule curve_valid_dest)
  with False show ?thesis
    using assms
    by (simp add: drawArc_def Let_def L_polyline_def L_circleMarker_def arcFails_def
        arcLayers_def arcAnimations_def arcLog_def console_log_def console_error_def addTo_def)
qed

lemma foldl_drawArc:
  assumes "mapRef st = Some m"
  shows "foldl (\<lambda>acc (index, dest). drawArc originPoint mx index dest acc) (ps, st)
           (enumerate n ds) =
    (ps @ map (\<lambda>d. (lat d, lng d)) ds,
     st\<lparr>mapRef := Some (m\<lparr>layers := layers m @
            concat (map (\<lambda>(i, d). arcLayers originPoint mx i d) (enumerate n ds))\<rparr>),
        intervals := intervals st @ concat (map (arcAnimations originPoint mx) ds),
        console := console st @ concat (map (arcLog originPoint) ds)\<rparr>)"
  using assms
proof (induction ds arbitrary: n ps st m)
  case Nil
  then show ?case by simp
next
  case (Cons d ds)
  let ?m = "m\<lparr>layers := layers m @ arcLayers originPoint mx n d\<rparr>"
  let ?st = "st\<lparr>mapRef := Some ?m,
        intervals := intervals st @ arcAnimations originPoint mx d,
        console := console st @ arcLog originPoint d\<rparr>"
  have "mapRef ?st = Some ?m" by simp
  from Cons.IH [OF this, where n = "Suc n" and ps = "ps @ [(lat d, lng d)]"]
  show ?case
    by (simp add: drawArc_effect [OF Cons.prems])
qed

lemma drawArcs_ready:
  assumes "mapRef st = Some m" "restaurantCoordinates st = Some originPoint" "ds \<noteq> []"
  shows "drawArcs ds st =
    fitBounds (originPoint # map (\<lambda>d. (lat d, lng d)) ds)
      (st\<lparr>mapRef := Some (m\<lparr>layers := filter (\<lambda>l. \<not> isFlowArc l) (layers m) @
              concat (map (\<lambda>(i, d). arcLayers originPoint (Math_max (map visitorCount ds)) i d)
                (enumerate 0 ds))\<rparr>),
          intervals := intervals st @
            concat (map (arcAnimations originPoint (Math_max (map visitorCount ds))) ds),
          console := console st @
            [ConsoleLog ''Manual drawArcs called with'', ConsoleLog ''RESTAURANT COORDINATES:'',
             ConsoleLog ''DESTINATION EXAMPLE:'', ConsoleLog ''Max visitors:''] @
            concat (map (arcLog originPoint) ds)\<rparr>)"
proof -
  let ?st3 = "st\<lparr>console := console st @
       [ConsoleLog ''Manual drawArcs called with'', ConsoleLog ''RESTAURANT COORDINATES:'',
        ConsoleLog ''DESTINATION EXAMPLE:'', ConsoleLog ''Max visitors:''],
       mapRef := Some (m\<lparr>layers := filter (\<lambda>l. \<not> isFlowArc l) (layers m)\<rparr>)\<rparr>"
  have m3: "mapRef ?st3 = Some (m\<lparr>layers := filter (\<lambda>l. \<not> isFlowArc l) (layers m)\<rparr>)"
    by simp
  show ?thesis
    using assms
    by (simp add: drawArcs_def Let_def console_log_def
        foldl_drawArc [OF m3, where ps = "[originPoint]" and n = 0] clearArcs_def)
qed

lemma fitBounds_fields:
  "mapRef (fitBounds pts st) =
     (if list_ex invalidLatLng pts then mapRef st
      else map_option (\<lambda>m. m\<lparr>view := FitBounds pts\<rparr>) (mapRef st))"
  "intervals (fitBounds pts st) = intervals st"
  "restaurantCoordinates (fitBounds pts st) = restaurantCoordinates st"
  "destinations (fitBounds pts st) = destinations st"
  "console (fitBounds pts st) =
     console st @ ConsoleLog ''Setting map bounds for'' #
       (if list_ex invalidLatLng pts then [ConsoleError ''Error setting map bounds:''] else [])"
  by (simp_all add: fitBounds_def Let_def console_log_def console_error_def)

lemma drawArcs_layers:
  assumes "mapRef st = Some m" "restaurantCoordinates st = Some originPoint" "ds \<noteq> []"
  shows "\<exists>m'. mapRef (drawArcs ds st) = Some m' \<and>
     layers m' = filter (\<lambda>l. \<not> isFlowArc l) (layers m) @
        concat (map (\<lambda>(i, d). arcLayers originPoint (Math_max (map visitorCount ds)) i d)
          (enumerate 0 ds)) \<and>
     view m' = (if list_ex invalidLatLng (originPoint # map (\<lambda>d. (lat d, lng d)) ds)
                then view m else FitBounds (originPoint # map (\<lambda>d. (lat d, lng d)) ds))"
  unfolding drawArcs_ready [OF assms] fitBounds_fields by simp

lemma drawArcs_intervals:
  assumes "mapRef st = Some m" "restaurantCoordinates st = Some originPoint" "ds \<noteq> []"
  shows "intervals (drawArcs ds st) = intervals st @
     concat (map (arcAnimations originPoint (Math_max (map visitorCount ds))) ds)"
  unfolding drawArcs_ready [OF assms] fitBounds_fields by simp

lemma drawArcs_console:
  assumes "mapRef st = Some m" "restaurantCoordinates st = Some originPoint" "ds \<noteq> []"
  shows "console (drawArcs ds st) = console st @
     [ConsoleLog ''Manual drawArcs called with'', ConsoleLog ''RESTAURANT COORDINATES:'',
      ConsoleLog ''DESTINATION EXAMPLE:'', ConsoleLog ''Max visitors:''] @
     concat (map (arcLog originPoint) ds) @
     ConsoleLog ''Setting map bounds for'' #
       (if list_ex invalidLatLng (originPoint # map (\<lambda>d. (lat d, lng d)) ds)
        then [ConsoleError ''Error setting map bounds:''] else [])"
  unfolding drawArcs_ready [OF assms] fitBounds_fields by simp

lemma bezier_Fin: "\<exists>r. bezier (Fin t) (Fin a) (Fin c) (Fin b) = Fin r"
  by (simp add: bezier_def js_sub_def)

lemma curve_valid:
  assumes "(ox, oy) \<noteq> (x, y)"
  shows "\<not> list_ex invalidLatLng (curvePoints (Fin ox, Fin oy) (Fin x, Fin y))"
proof -
  obtain cx cy where c: "controlPoint (Fin ox, Fin oy) (Fin x, Fin y) = (Fin cx, Fin cy)"
    using controlPoint_Fin [OF assms] by (simp add: Let_def)
  have "\<not> invalidLatLng (bezierPoint (Fin ox, Fin oy) (Fin cx, Fin cy) (Fin x, Fin y) (t_value n))"
    for n
    using bezier_Fin [of "real n / 2 ^ 57" ox cx x] bezier_Fin [of "real n / 2 ^ 57" oy cy y]
    by (auto simp: invalidLatLng_def bezierPoint_def t_value_def)
  then show ?thesis
    by (auto simp: curvePoints_def c list_ex_iff)
qed

lemma arcFails_coincident: "arcFails (Fin ox, Fin oy) (d\<lparr>lat := Fin ox, lng := Fin oy\<rparr>)"
proof -
  have c: "controlPoint (Fin ox, Fin oy) (Fin ox, Fin oy) = (NaN, NaN)"
    by (simp add: geometry_defs)
  have "curvePoints (Fin ox, Fin oy) (Fin ox, Fin oy) = replicate 20 (NaN, NaN)"
    by (simp add: curvePoints_def c bezierPoint_def bezier_NaN map_replicate_const
        length_sampleTs_0)
  then show ?thesis
    by (simp add: arcFails_def list_ex_iff invalidLatLng_def)
qed

lemma arcFails_distinct:
  assumes "lat d = Fin x" "lng d = Fin y" "(ox, oy) \<noteq> (x, y)"
  shows "\<not> arcFails (Fin ox, Fin oy) d"
  using curve_valid [OF assms(3)] by (simp add: arcFails_def assms)

lemma arcLayers_in_layers:
  assumes "index < length dests"
  shows "set (arcLayers originPoint mx index (dests ! index)) \<subseteq>
     set (concat (map (\<lambda>(i, d). arcLayers originPoint mx i d) (enumerate 0 dests)))"
proof -
  have "(index, dests ! index) \<in> set (enumerate 0 dests)"
    using assms by (simp add: in_set_enumerate_eq)
  then show ?thesis by force
qed

section \<open>drawArcs on the examples\<close>

lemma ready_fields:
  "mapRef ready = Some baseMap" "restaurantCoordinates ready = Some restaurant"
  "intervals ready = []" "console ready = []"
  by (simp_all add: ready_def)

lemma arcFails_examples:
  "\<not> arcFails restaurant aksam" "\<not> arcFails restaurant destFil" "\<not> arcFails restaurant destYer"
  "arcFails restaurant atRestaurant"
proof -
  show "\<not> arcFails restaurant aksam"
    unfolding restaurant_def by (rule arcFails_distinct [of _ "40.98" "29.02"]) (simp_all add: aksam_def)
  show "\<not> arcFails restaurant destFil"
    unfolding restaurant_def by (rule arcFails_distinct [of _ "40.97" "29.03"]) (simp_all add: destFil_def)
  show "\<not> arcFails restaurant destYer"
    unfolding restaurant_def by (rule arcFails_distinct [of _ "40.99" "29.01"]) (simp_all add: destYer_def)
  have "atRestaurant = atRestaurant\<lparr>lat := Fin 41, lng := Fin 29\<rparr>"
    by (simp add: atRestaurant_def)
  then show "arcFails restaurant atRestaurant"
    unfolding restaurant_def using arcFails_coincident [of 41 29 atRestaurant] by simp
qed

lemma example_fields:
  "lat aksam = Fin 40.98" "lng aksam = Fin 29.02" "visitorCount aksam = Fin 209"
  "lat destFil = Fin 40.97" "lng destFil = Fin 29.03" "visitorCount destFil = Fin 179"
  "lat atRestaurant = Fin 41" "lng atRestaurant = Fin 29" "visitorCount atRestaurant = Fin 300"
  by (simp_all add: aksam_def destFil_def atRestaurant_def)

lemmas draw_simps = enumerate_eq_zip upt_rec arcLayers_def arcAnimations_def arcLog_def
  arcFails_examples example_fields Math_max_def max2_def normalizedValue_def colors_def
  baseMap_def

lemma top_example: "topDestinations 2 [rowAksam, rowFil, rowYer] = [aksam, destFil]"
  by (simp add: topDestinations_def sortSlice_def slice0_def validDestinations_examples
      sort_js_def byVisitorCount_def js_gt_def js_sub_def aksam_def destFil_def destYer_def)

lemma draw_example:
  "mapRef (drawArcs [aksam, destFil] ready) =
     Some \<lparr> layers =
       [TileLayer ''voyager'',
        Polyline (curvePoints restaurant (Fin 40.98, Fin 29.02)) (arcOptions ''#3B82F6'' (Fin 1)),
        CircleMarker (Fin 40.98, Fin 29.02) (markerOptions ''#3B82F6'' (Fin 1)),
        Polyline (curvePoints restaurant (Fin 40.97, Fin 29.03))
          (arcOptions ''#8B5CF6'' (Fin (0.3 + 179 / 209 * 0.7))),
        CircleMarker (Fin 40.97, Fin 29.03)
          (markerOptions ''#8B5CF6'' (Fin (0.3 + 179 / 209 * 0.7)))],
       view = FitBounds [restaurant, (Fin 40.98, Fin 29.02), (Fin 40.97, Fin 29.03)] \<rparr>"
proof -
  have ne: "[aksam, destFil] \<noteq> []" by simp
  have v: "\<not> list_ex invalidLatLng [restaurant, (Fin 40.98, Fin 29.02), (Fin 40.97, Fin 29.03)]"
    by (simp add: restaurant_def invalidLatLng_def)
  show ?thesis
    unfolding drawArcs_ready [OF ready_fields(1,2) ne] fitBounds_fields
    using v
    by (simp add: draw_simps)
qed

lemma top_example_unranked: "topDestinations 2 [rowYer, rowFil, rowAksam] = [aksam, destFil]"
  by (simp add: topDestinations_def sortSlice_def slice0_def validDestinations_unranked
      sort_js_def byVisitorCount_def js_gt_def js_sub_def aksam_def destFil_def destYer_def)

lemma draw_example_unranked:
  "mapRef (drawArcs [destFil, aksam] ready) =
     Some \<lparr> layers =
       [TileLayer ''voyager'',
        Polyline (curvePoints restaurant (Fin 40.97, Fin 29.03))
          (arcOptions ''#3B82F6'' (Fin (0.3 + 179 / 209 * 0.7))),
        CircleMarker (Fin 40.97, Fin 29.03)
          (markerOptions ''#3B82F6'' (Fin (0.3 + 179 / 209 * 0.7))),
        Polyline (curvePoints restaurant (Fin 40.98, Fin 29.02)) (arcOptions ''#8B5CF6'' (Fin 1)),
        CircleMarker (Fin 40.98, Fin 29.02) (markerOptions ''#8B5CF6'' (Fin 1))],
       view = FitBounds [restaurant, (Fin 40.97, Fin 29.03), (Fin 40.98, Fin 29.02)] \<rparr>"
proof -
  have ne: "[destFil, aksam] \<noteq> []" by simp
  have v: "\<not> list_ex invalidLatLng [restaurant, (Fin 40.97, Fin 29.03), (Fin 40.98, Fin 29.02)]"
    by (simp add: restaurant_def invalidLatLng_def)
  show ?thesis
    unfolding drawArcs_ready [OF ready_fields(1,2) ne] fitBounds_fields
    using v
    by (simp add: draw_simps)
qed

section \<open>The claims\<close>

text \<open>
  C1. The claim: the arc polyline samples the quadratic Bezier curve at
  \<open>t = 0, 0.05, ..., 1.0\<close>, 21 points, the first the origin and the last the destination,
  and the sample of \<open>t = 0.5\<close> lies off the chord by \<open>controlHeight / 2\<close>.
  The code departs from it. The counter of \<^verbatim>\<open>for (let t = 0; t <= 1; t += 0.05)\<close> is a
  binary64 number; after twenty additions it is \<open>1.0000000000000002\<close>, so the loop body
  runs twenty times, for every origin and destination. The last parameter is
  \<open>136909428672063120 / 2^57\<close> (printed \<open>0.9500000000000003\<close>), and no parameter is
  \<open>0.5\<close> (the eleventh is \<open>0.49999999999999994\<close>). For the origin \<open>(0, 0)\<close> and the
  destination \<open>(0, 10)\<close> the first sample is the origin, and the last sample is not the
  destination: its second coordinate is below \<open>9.6\<close>.
\<close>

theorem C1_sampling_stops_before_destination:
  "length (curvePoints p0 p1) = 20 \<and>
   t_value (last (sampleTs 0)) = Fin (136909428672063120 / 2 ^ 57) \<and>
   js_lt (t_value (last (sampleTs 0))) (Fin 0.96) \<and>
   Fin (1 / 2) \<notin> set (map t_value (sampleTs 0)) \<and>
   hd (curvePoints (Fin 0, Fin 0) (Fin 0, Fin 10)) = (Fin 0, Fin 0) \<and>
   last (curvePoints (Fin 0, Fin 0) (Fin 0, Fin 10)) \<noteq> (Fin 0, Fin 10) \<and>
   js_lt (snd (last (curvePoints (Fin 0, Fin 0) (Fin 0, Fin 10)))) (Fin 9.6)"
proof -
  have 1: "length (curvePoints p0 p1) = 20"
    by (rule length_curvePoints)
  have 2: "t_value (last (sampleTs 0)) = Fin (136909428672063120 / 2 ^ 57)"
    by (simp add: sampleTs_0 t_value_def)
  have 3: "js_lt (t_value (last (sampleTs 0))) (Fin 0.96)"
    by (simp add: sampleTs_0 t_value_def)
  have 4: "Fin (1 / 2) \<notin> set (map t_value (sampleTs 0))"
    by (simp add: sampleTs_0 t_value_def)
  have 5: "hd (curvePoints (Fin 0, Fin 0) (Fin 0, Fin 10)) = (Fin 0, Fin 0)"
    by (simp add: curvePoints_def sampleTs_0 controlPoint_0_10 bezierPoint_def bezier_def
        js_sub_def t_value_def)
  have l: "last (curvePoints (Fin 0, Fin 0) (Fin 0, Fin 10)) =
      bezierPoint (Fin 0, Fin 0) (Fin (- 2), Fin 5) (Fin 0, Fin 10) (t_value 136909428672063120)"
    by (simp add: curvePoints_def sampleTs_0 controlPoint_0_10 last_map)
  have 6: "last (curvePoints (Fin 0, Fin 0) (Fin 0, Fin 10)) \<noteq> (Fin 0, Fin 10)"
    unfolding l by (simp add: bezierPoint_def bezier_def js_sub_def t_value_def)
  have 7: "js_lt (snd (last (curvePoints (Fin 0, Fin 0) (Fin 0, Fin 10)))) (Fin 9.6)"
    unfolding l
    by (simp add: bezierPoint_def bezier_def js_sub_def t_value_def power2_eq_square)
  from 1 2 3 4 5 6 7 show ?thesis by blast
qed

text \<open>
  C2, as the code has it. For a destination with \<open>1 \<le> visitorCount \<le> maxVisitors\<close> the
  normalized value is \<open>0.3 + visitorCount / maxVisitors * 0.7\<close> and lies between 0.3 and 1.
  The unit perpendicular is formed by a division by
  \<^verbatim>\<open>Math.sqrt(dx * dx + dy * dy)\<close>, and the second half of the claim holds for the
  destinations for which this sum of squares, as the code computes it, is not zero: with
  \<open>d\<close> the Euclidean norm of \<open>destination - origin\<close> in degrees, the control height is
  \<open>0.2 * d\<close> and the control point is the midpoint plus \<open>(px, py) * (0.2 * d)\<close>, where
  \<open>(px, py) = (- (y - oy), x - ox) / d\<close> has the norm 1 and is perpendicular to
  \<open>destination - origin\<close>. In the exact arithmetic of this model the sum of squares is
  not zero for every destination distinct from the origin. In binary64 the square of a
  difference below about \<open>1.5e-162\<close> underflows to zero, so a destination that close to the
  origin in both coordinates is outside the domain as well, like a destination at the
  origin; and the equalities hold up to rounding.
\<close>

theorem C2_normalized_and_control_point:
  assumes "1 \<le> v" and "v \<le> m"
  shows "(\<exists>n. normalizedValue (Fin v) (Fin m) = Fin n \<and> n = 0.3 + v / m * 0.7 \<and>
            0.3 \<le> n \<and> n \<le> 1) \<and>
     normFactor (Fin ox, Fin oy) (Fin x, Fin y) =
       js_div (Fin 1) (Math_sqrt (squaredNorm (Fin ox, Fin oy) (Fin x, Fin y))) \<and>
     (squaredNorm (Fin ox, Fin oy) (Fin x, Fin y) \<noteq> Fin 0 \<longrightarrow>
       (\<exists>d px py.
          d = sqrt ((x - ox)\<^sup>2 + (y - oy)\<^sup>2) \<and> 0 < d \<and>
          distance (Fin ox, Fin oy) (Fin x, Fin y) = Fin d \<and>
          controlHeight (Fin ox, Fin oy) (Fin x, Fin y) = Fin (0.2 * d) \<and>
          px = - (y - oy) / d \<and> py = (x - ox) / d \<and>
          px\<^sup>2 + py\<^sup>2 = 1 \<and> px * (x - ox) + py * (y - oy) = 0 \<and>
          controlPoint (Fin ox, Fin oy) (Fin x, Fin y) =
            (Fin ((ox + x) / 2 + px * (0.2 * d)), Fin ((oy + y) / 2 + py * (0.2 * d)))))"
proof -
  from assms have m: "0 < m" by simp
  have n: "normalizedValue (Fin v) (Fin m) = Fin (0.3 + v / m * 0.7)"
    using m by (simp add: normalizedValue_Fin)
  have "0 < v / m" "v / m \<le> 1" using assms m by simp_all
  then have b: "0.3 \<le> 0.3 + v / m * 0.7" "0.3 + v / m * 0.7 \<le> 1" by simp_all
  from n b have first: "\<exists>n. normalizedValue (Fin v) (Fin m) = Fin n \<and> n = 0.3 + v / m * 0.7 \<and>
      0.3 \<le> n \<and> n \<le> 1"
    by blast
  have nf: "normFactor (Fin ox, Fin oy) (Fin x, Fin y) =
      js_div (Fin 1) (Math_sqrt (squaredNorm (Fin ox, Fin oy) (Fin x, Fin y)))"
    by (simp add: normFactor_def squaredNorm_def)
  have second: "\<exists>d px py.
      d = sqrt ((x - ox)\<^sup>2 + (y - oy)\<^sup>2) \<and> 0 < d \<and>
      distance (Fin ox, Fin oy) (Fin x, Fin y) = Fin d \<and>
      controlHeight (Fin ox, Fin oy) (Fin x, Fin y) = Fin (0.2 * d) \<and>
      px = - (y - oy) / d \<and> py = (x - ox) / d \<and>
      px\<^sup>2 + py\<^sup>2 = 1 \<and> px * (x - ox) + py * (y - oy) = 0 \<and>
      controlPoint (Fin ox, Fin oy) (Fin x, Fin y) =
        (Fin ((ox + x) / 2 + px * (0.2 * d)), Fin ((oy + y) / 2 + py * (0.2 * d)))"
    if nz: "squaredNorm (Fin ox, Fin oy) (Fin x, Fin y) \<noteq> Fin 0"
  proof -
    define d where "d = sqrt ((x - ox)\<^sup>2 + (y - oy)\<^sup>2)"
    define px where "px = - (y - oy) / d"
    define py where "py = (x - ox) / d"
    from nz have ne: "(ox, oy) \<noteq> (x, y)" by (simp add: squaredNorm_zero_iff)
    then have "x - ox \<noteq> 0 \<or> y - oy \<noteq> 0" by auto
    then have "0 < (x - ox) * (x - ox) + (y - oy) * (y - oy)" by (rule norm_pos)
    then have s: "0 < (x - ox)\<^sup>2 + (y - oy)\<^sup>2" by (simp add: power2_eq_square)
    then have dpos: "0 < d" by (simp add: d_def)
    have dd: "d * d = (x - ox)\<^sup>2 + (y - oy)\<^sup>2"
      using s by (simp add: d_def)
    have dist: "distance (Fin ox, Fin oy) (Fin x, Fin y) = Fin d"
      using s by (simp add: distance_def js_sub_def d_def)
    have ch: "controlHeight (Fin ox, Fin oy) (Fin x, Fin y) = Fin (0.2 * d)"
      by (simp add: controlHeight_def dist)
    have "px\<^sup>2 + py\<^sup>2 = ((y - oy)\<^sup>2 + (x - ox)\<^sup>2) / d\<^sup>2"
      by (simp add: px_def py_def power_divide add_divide_distrib power2_commute [of oy y])
    also have "d\<^sup>2 = (y - oy)\<^sup>2 + (x - ox)\<^sup>2"
      using dd by (simp add: power2_eq_square)
    finally have e: "px\<^sup>2 + py\<^sup>2 =
        ((y - oy)\<^sup>2 + (x - ox)\<^sup>2) / ((y - oy)\<^sup>2 + (x - ox)\<^sup>2)" .
    have nz': "(y - oy)\<^sup>2 + (x - ox)\<^sup>2 \<noteq> 0" using s by linarith
    have unit: "px\<^sup>2 + py\<^sup>2 = 1"
      using e unfolding divide_self [OF nz'] .
    have perp: "px * (x - ox) + py * (y - oy) = 0"
      using dpos by (simp add: px_def py_def field_simps)
    have cp: "controlPoint (Fin ox, Fin oy) (Fin x, Fin y) =
         (Fin ((ox + x) / 2 + px * (0.2 * d)), Fin ((oy + y) / 2 + py * (0.2 * d)))"
      using ne by (simp add: controlPoint_Fin Let_def d_def px_def py_def)
    from dpos dist ch unit perp cp show ?thesis
      unfolding d_def [symmetric] px_def [symmetric] py_def [symmetric]
      by (intro exI [of _ d] exI [of _ px] exI [of _ py]) (simp add: d_def px_def py_def)
  qed
  from first nf second show ?thesis by blast
qed

theorem C2_normalized_and_control_point_witness:
  "(1::real) \<le> 179 \<and> (179::real) \<le> 209 \<and>
   squaredNorm (Fin 0, Fin 0) (Fin 3, Fin 4) = Fin 25 \<and>
   squaredNorm (Fin 0, Fin 0) (Fin 3, Fin 4) \<noteq> Fin 0 \<and>
   normalizedValue (Fin 179) (Fin 209) = Fin (0.3 + 179 / 209 * 0.7) \<and>
   distance (Fin 0, Fin 0) (Fin 3, Fin 4) = Fin 5 \<and>
   controlHeight (Fin 0, Fin 0) (Fin 3, Fin 4) = Fin 1 \<and>
   controlPoint (Fin 0, Fin 0) (Fin 3, Fin 4) = (Fin 0.7, Fin 2.6)"
proof -
  have h: "(1::real) \<le> 179" "(179::real) \<le> 209" by simp_all
  have q: "squaredNorm (Fin 0, Fin 0) (Fin 3, Fin 4) = Fin 25"
    by (simp add: squaredNorm_Fin)
  then have nz: "squaredNorm (Fin 0, Fin 0) (Fin 3, Fin 4) \<noteq> Fin 0" by simp
  have s: "sqrt ((3 - 0)\<^sup>2 + (4 - 0)\<^sup>2) = (5::real)"
    by (rule real_sqrt_unique) simp_all
  from C2_normalized_and_control_point [OF h, of 0 0 3 4] nz obtain n d px py :: real where
    "normalizedValue (Fin 179) (Fin 209) = Fin n" "n = 0.3 + 179 / 209 * 0.7"
    "d = sqrt ((3 - 0)\<^sup>2 + (4 - 0)\<^sup>2)"
    "distance (Fin 0, Fin 0) (Fin 3, Fin 4) = Fin d"
    "controlHeight (Fin 0, Fin 0) (Fin 3, Fin 4) = Fin (0.2 * d)"
    "px = - (4 - 0) / d" "py = (3 - 0) / d"
    "controlPoint (Fin 0, Fin 0) (Fin 3, Fin 4) =
       (Fin ((0 + 3) / 2 + px * (0.2 * d)), Fin ((0 + 4) / 2 + py * (0.2 * d)))"
    by blast
  then show ?thesis using h q by (simp add: s)
qed

text \<open>
  C2 as stated is about every destination with \<open>1 \<le> visitorCount \<le> maxVisitors\<close>. The
  destination \<open>atRestaurant\<close> is one: drawn alone, its visitor count 300 is the maximum and
  its normalized value is 1. It lies at the origin \<open>(41, 29)\<close>: the sum of squares is zero,
  the distance and the control height are zero and the midpoint is \<open>(41, 29)\<close>, so the
  midpoint plus any vector scaled by the control height would be \<open>(41, 29)\<close>. The control
  point the code computes is \<open>(NaN, NaN)\<close>, and it is the midpoint plus \<open>(px, py)\<close> times
  the control height for no numbers \<open>px\<close> and \<open>py\<close>.
\<close>

theorem C2_destination_at_origin:
  "normalizedValue (visitorCount atRestaurant) (Math_max (map visitorCount [atRestaurant])) =
     Fin 1 \<and>
   (lat atRestaurant, lng atRestaurant) = restaurant \<and>
   squaredNorm restaurant (lat atRestaurant, lng atRestaurant) = Fin 0 \<and>
   distance restaurant (lat atRestaurant, lng atRestaurant) = Fin 0 \<and>
   controlHeight restaurant (lat atRestaurant, lng atRestaurant) = Fin 0 \<and>
   midX restaurant (lat atRestaurant, lng atRestaurant) = Fin 41 \<and>
   midY restaurant (lat atRestaurant, lng atRestaurant) = Fin 29 \<and>
   controlPoint restaurant (lat atRestaurant, lng atRestaurant) = (NaN, NaN) \<and>
   (\<forall>px py. controlPoint restaurant (lat atRestaurant, lng atRestaurant) \<noteq>
      (js_add (midX restaurant (lat atRestaurant, lng atRestaurant))
         (js_mul (Fin px) (controlHeight restaurant (lat atRestaurant, lng atRestaurant))),
       js_add (midY restaurant (lat atRestaurant, lng atRestaurant))
         (js_mul (Fin py) (controlHeight restaurant (lat atRestaurant, lng atRestaurant)))))"
  by (simp add: atRestaurant_def restaurant_def squaredNorm_def geometry_defs Math_max_def
      max2_def)

text \<open>
  C3. The claim: for a destination that coincides with the origin the division by zero
  is guarded, and no \<^verbatim>\<open>NaN\<close> or infinite control point or curve is produced.
  The code departs from it: \<^verbatim>\<open>normFactor = 1 / Math.sqrt(dx * dx + dy * dy)\<close> has no
  guard. For every origin \<open>(a, b)\<close> and a destination at \<open>(a, b)\<close>, such as \<open>(41, 29)\<close>,
  the divisor is zero, \<^verbatim>\<open>normFactor\<close> is \<^verbatim>\<open>Infinity\<close>, \<^verbatim>\<open>perpX\<close> and \<^verbatim>\<open>perpY\<close> are
  \<^verbatim>\<open>NaN\<close> (zero times infinity), both coordinates of the control point are \<^verbatim>\<open>NaN\<close>,
  and so is every sample of the curve, which \<^verbatim>\<open>L.polyline\<close> then refuses.
\<close>

theorem C3_coincident_destination_divides_by_zero:
  "normFactor (Fin a, Fin b) (Fin a, Fin b) = PosInf \<and>
   perpX (Fin a, Fin b) (Fin a, Fin b) = NaN \<and>
   perpY (Fin a, Fin b) (Fin a, Fin b) = NaN \<and>
   controlPoint (Fin a, Fin b) (Fin a, Fin b) = (NaN, NaN) \<and>
   curvePoints (Fin a, Fin b) (Fin a, Fin b) = replicate 20 (NaN, NaN) \<and>
   L_polyline (curvePoints (Fin a, Fin b) (Fin a, Fin b)) opts =
     Inl (Error ''Invalid LatLng object'') \<and>
   controlPoint (Fin 41, Fin 29) (Fin 41, Fin 29) = (NaN, NaN)"
proof -
  have n: "normFactor (Fin a, Fin b) (Fin a, Fin b) = PosInf"
    by (simp add: geometry_defs)
  have p: "perpX (Fin a, Fin b) (Fin a, Fin b) = NaN" "perpY (Fin a, Fin b) (Fin a, Fin b) = NaN"
    by (simp_all add: geometry_defs)
  have c: "controlPoint (Fin x, Fin y) (Fin x, Fin y) = (NaN, NaN)" for x y
    by (simp add: geometry_defs)
  have k: "curvePoints (Fin a, Fin b) (Fin a, Fin b) = replicate 20 (NaN, NaN)"
    by (simp add: curvePoints_def c bezierPoint_def bezier_NaN map_replicate_const
        length_sampleTs_0)
  have l: "L_polyline (curvePoints (Fin a, Fin b) (Fin a, Fin b)) opts =
     Inl (Error ''Invalid LatLng object'')"
    unfolding k by (simp add: L_polyline_def list_ex_iff invalidLatLng_def)
  from n p c k l show ?thesis by simp
qed

text \<open>
  C4, as the code has it. The pipeline treats the rows one by one and keeps their order.
  A row yields a destination exactly when (a) \<^verbatim>\<open>KoordinatX\<close> and \<^verbatim>\<open>KoordinatY\<close> are
  both truthy or \<^verbatim>\<open>latitude\<close> and \<^verbatim>\<open>longitude\<close> are both truthy (an absent or empty
  cell and the number 0 are not truthy), (b) \<^verbatim>\<open>visitor_count\<close> is truthy and, as a
  number, greater than 0, (c) the coordinates read for the destination are finite with
  \<open>|lat| \<le> 90\<close> and \<open>|lng| \<le> 180\<close>, and (d) the visitor count read for it is a positive
  integer. The coordinates are read from \<^verbatim>\<open>KoordinatX\<close> and \<^verbatim>\<open>KoordinatY\<close> when both
  are truthy, and from \<^verbatim>\<open>latitude\<close> and \<^verbatim>\<open>longitude\<close> when neither is; reading is
  \<^verbatim>\<open>parseFloat\<close> after the first comma has become a dot and the first apostrophe is
  removed. The visitor count is \<^verbatim>\<open>parseInt\<close> of the cell. The row
  \<^verbatim>\<open>{KoordinatX: "40,98", KoordinatY: "29,02", visitor_count: 150}\<close> yields
  \<^verbatim>\<open>{lat: 40.98, lng: 29.02, visitorCount: 150}\<close>.
\<close>

theorem C4_row_normalization:
  "validDestinations rows = concat (map (\<lambda>row. validDestinations [row]) rows) \<and>
   validDestinations [row] =
     (if (truthy (KoordinatX row) \<and> truthy (KoordinatY row) \<or>
          truthy (latitude row) \<and> truthy (longitude row)) \<and>
         truthy (visitor_count row) \<and> js_gt (toNumber (visitor_count row)) (Fin 0) \<and>
         (\<exists>x y. lat (toDestination row) = Fin x \<and> lng (toDestination row) = Fin y \<and>
                \<bar>x\<bar> \<le> 90 \<and> \<bar>y\<bar> \<le> 180) \<and>
         (\<exists>n::int. visitorCount (toDestination row) = Fin (of_int n) \<and> 0 < n)
      then [toDestination row] else []) \<and>
   (truthy (KoordinatX row) \<and> truthy (KoordinatY row) \<longrightarrow>
      lat (toDestination row) = parseCoordinate (String_js (KoordinatX row)) \<and>
      lng (toDestination row) = parseCoordinate (String_js (KoordinatY row))) \<and>
   (\<not> truthy (KoordinatX row) \<and> \<not> truthy (KoordinatY row) \<and>
    truthy (latitude row) \<and> truthy (longitude row) \<longrightarrow>
      lat (toDestination row) = parseCoordinate (String_js (latitude row)) \<and>
      lng (toDestination row) = parseCoordinate (String_js (longitude row))) \<and>
   (truthy (visitor_count row) \<longrightarrow>
      visitorCount (toDestination row) = parseInt (String_js (visitor_count row))) \<and>
   parseCoordinate (Text ''40,98'') = Fin 40.98 \<and>
   parseCoordinate (Text ''29,02'') = Fin 29.02 \<and>
   validDestinations [exampleRow] =
     [\<lparr> name = JStr ''Unknown Location'', lat = Fin 40.98, lng = Fin 29.02,
        visitorCount = Fin 150, type = JStr ''Unspecified'' \<rparr>]"
proof -
  have 1: "validDestinations rows = concat (map (\<lambda>row. validDestinations [row]) rows)"
    by (rule validDestinations_concat)
  have 2: "validDestinations [row] =
     (if (truthy (KoordinatX row) \<and> truthy (KoordinatY row) \<or>
          truthy (latitude row) \<and> truthy (longitude row)) \<and>
         truthy (visitor_count row) \<and> js_gt (toNumber (visitor_count row)) (Fin 0) \<and>
         (\<exists>x y. lat (toDestination row) = Fin x \<and> lng (toDestination row) = Fin y \<and>
                \<bar>x\<bar> \<le> 90 \<and> \<bar>y\<bar> \<le> 180) \<and>
         (\<exists>n::int. visitorCount (toDestination row) = Fin (of_int n) \<and> 0 < n)
      then [toDestination row] else [])"
    unfolding validDestinations_single rowFilter_iff destFilter_iff by (simp add: conj_assoc)
  have 3: "truthy (KoordinatX row) \<and> truthy (KoordinatY row) \<longrightarrow>
      lat (toDestination row) = parseCoordinate (String_js (KoordinatX row)) \<and>
      lng (toDestination row) = parseCoordinate (String_js (KoordinatY row))"
    by (simp add: toDestination_def koordinatX_def koordinatY_def js_or_def)
  have 4: "\<not> truthy (KoordinatX row) \<and> \<not> truthy (KoordinatY row) \<and>
    truthy (latitude row) \<and> truthy (longitude row) \<longrightarrow>
      lat (toDestination row) = parseCoordinate (String_js (latitude row)) \<and>
      lng (toDestination row) = parseCoordinate (String_js (longitude row))"
    by (simp add: toDestination_def koordinatX_def koordinatY_def js_or_def)
  have 5: "truthy (visitor_count row) \<longrightarrow>
      visitorCount (toDestination row) = parseInt (String_js (visitor_count row))"
    by (simp add: toDestination_def js_or_def)
  have 6: "parseCoordinate (Text ''40,98'') = Fin 40.98"
    by (simp add: parse_defs)
  have 7: "parseCoordinate (Text ''29,02'') = Fin 29.02"
    by (simp add: parse_defs)
  have 8: "validDestinations [exampleRow] =
     [\<lparr> name = JStr ''Unknown Location'', lat = Fin 40.98, lng = Fin 29.02,
        visitorCount = Fin 150, type = JStr ''Unspecified'' \<rparr>]"
    by (simp add: exampleRow_def emptyRow_def row_defs parse_defs)
  from 1 2 3 4 5 6 7 8 show ?thesis by blast
qed

theorem C4_row_normalization_witness:
  "truthy (KoordinatX rowAksam) \<and> truthy (KoordinatY rowAksam) \<and>
   truthy (visitor_count rowAksam) \<and>
   lat (toDestination rowAksam) = Fin 40.98 \<and> lng (toDestination rowAksam) = Fin 29.02 \<and>
   visitorCount (toDestination rowAksam) = Fin 209 \<and>
   validDestinations [rowAksam] = [toDestination rowAksam] \<and>
   \<not> truthy (KoordinatX rowFil) \<and> \<not> truthy (KoordinatY rowFil) \<and>
   truthy (latitude rowFil) \<and> truthy (longitude rowFil) \<and>
   lat (toDestination rowFil) = Fin 40.97 \<and> lng (toDestination rowFil) = Fin 29.03"
proof -
  have a: "truthy (KoordinatX rowAksam) \<and> truthy (KoordinatY rowAksam)"
    and av: "truthy (visitor_count rowAksam)"
    by (simp_all add: rowAksam_def emptyRow_def)
  have f: "\<not> truthy (KoordinatX rowFil) \<and> \<not> truthy (KoordinatY rowFil) \<and>
      truthy (latitude rowFil) \<and> truthy (longitude rowFil)"
    by (simp add: rowFil_def emptyRow_def)
  have pa: "parseCoordinate (String_js (KoordinatX rowAksam)) = Fin 40.98"
    "parseCoordinate (String_js (KoordinatY rowAksam)) = Fin 29.02"
    "parseInt (String_js (visitor_count rowAksam)) = Fin 209"
    and pg: "js_gt (toNumber (visitor_count rowAksam)) (Fin 0)"
    by (simp_all add: rowAksam_def emptyRow_def parse_defs js_gt_def)
  have pf: "parseCoordinate (String_js (latitude rowFil)) = Fin 40.97"
    "parseCoordinate (String_js (longitude rowFil)) = Fin 29.03"
    by (simp_all add: rowFil_def emptyRow_def parse_defs)
  note t = C4_row_normalization [of "[rowAksam]" rowAksam]
  from t a have "lat (toDestination rowAksam) = parseCoordinate (String_js (KoordinatX rowAksam)) \<and>
      lng (toDestination rowAksam) = parseCoordinate (String_js (KoordinatY rowAksam))"
    by blast
  then have c: "lat (toDestination rowAksam) = Fin 40.98" "lng (toDestination rowAksam) = Fin 29.02"
    by (simp_all add: pa)
  from t av have "visitorCount (toDestination rowAksam) = parseInt (String_js (visitor_count rowAksam))"
    by blast
  then have v: "visitorCount (toDestination rowAksam) = Fin 209"
    by (simp add: pa)
  have cx: "\<exists>x y. lat (toDestination rowAksam) = Fin x \<and> lng (toDestination rowAksam) = Fin y \<and>
      \<bar>x\<bar> \<le> 90 \<and> \<bar>y\<bar> \<le> 180"
    unfolding c by (intro exI [of _ "40.98"] exI [of _ "29.02"]) simp
  have cn: "\<exists>n::int. visitorCount (toDestination rowAksam) = Fin (of_int n) \<and> 0 < n"
    unfolding v by (intro exI [of _ 209]) simp
  from t have "validDestinations [rowAksam] =
     (if (truthy (KoordinatX rowAksam) \<and> truthy (KoordinatY rowAksam) \<or>
          truthy (latitude rowAksam) \<and> truthy (longitude rowAksam)) \<and>
         truthy (visitor_count rowAksam) \<and> js_gt (toNumber (visitor_count rowAksam)) (Fin 0) \<and>
         (\<exists>x y. lat (toDestination rowAksam) = Fin x \<and> lng (toDestination rowAksam) = Fin y \<and>
                \<bar>x\<bar> \<le> 90 \<and> \<bar>y\<bar> \<le> 180) \<and>
         (\<exists>n::int. visitorCount (toDestination rowAksam) = Fin (of_int n) \<and> 0 < n)
      then [toDestination rowAksam] else [])"
    (is "_ = (if ?C then _ else _)")
    by blast
  moreover have "?C" using a av pg cx cn by blast
  ultimately have e: "validDestinations [rowAksam] = [toDestination rowAksam]"
    by simp
  from C4_row_normalization [of "[rowFil]" rowFil] f
  have "lat (toDestination rowFil) = parseCoordinate (String_js (latitude rowFil)) \<and>
      lng (toDestination rowFil) = parseCoordinate (String_js (longitude rowFil))"
    by blast
  then have "lat (toDestination rowFil) = Fin 40.97 \<and> lng (toDestination rowFil) = Fin 29.03"
    by (simp add: pf)
  with a av c v e f show ?thesis by blast
qed

text \<open>
  C4 as stated gives a destination for every row whose coordinate pair parses to finite
  numbers in range and whose visitor count parses to a positive integer. The row with the
  numbers \<^verbatim>\<open>latitude: 0\<close>, \<^verbatim>\<open>longitude: 29.02\<close> and \<^verbatim>\<open>visitor_count: 150\<close> is
  such a row, and the pipeline drops it: the number 0 is not truthy.
\<close>

theorem C4_zero_coordinate_is_dropped:
  "parseCoordinate (String_js (latitude equatorRow)) = Fin 0 \<and>
   parseCoordinate (String_js (longitude equatorRow)) = Fin 29.02 \<and>
   parseInt (String_js (visitor_count equatorRow)) = Fin 150 \<and>
   validDestinations [equatorRow] = []"
  by (simp add: equatorRow_def emptyRow_def row_defs parse_defs)

text \<open>
  C5. For every list of rows and every \<open>maxArcs \<ge> 0\<close> (\<^verbatim>\<open>maxArcs\<close> is a count; its
  default is 10), the selected destinations are the first \<open>maxArcs\<close> of the valid
  destinations sorted by visitor count: their number is the smaller of \<open>maxArcs\<close> and the
  number of valid destinations, the visitor counts do not increase along them, the sort is
  a stable permutation (destinations with the same visitor count keep their order of the
  input), and selecting again from the selected destinations gives the same list.
\<close>

theorem C5_selection:
  assumes "0 \<le> maxArcs"
  shows "int (length (topDestinations maxArcs rows)) =
           min (int (length (validDestinations rows))) maxArcs \<and>
         ranked (topDestinations maxArcs rows) \<and>
         topDestinations maxArcs rows =
           take (nat maxArcs) (sort_js byVisitorCount (validDestinations rows)) \<and>
         mset (sort_js byVisitorCount (validDestinations rows)) = mset (validDestinations rows) \<and>
         (\<forall>k. filter (\<lambda>d. visitorCount d = k) (sort_js byVisitorCount (validDestinations rows)) =
              filter (\<lambda>d. visitorCount d = k) (validDestinations rows)) \<and>
         sortSlice maxArcs (topDestinations maxArcs rows) = topDestinations maxArcs rows \<and>
         maxArcs_default = 10"
proof -
  let ?V = "validDestinations rows"
  let ?S = "sort_js byVisitorCount ?V"
  have fin: "list_all finiteCount ?V" by (rule validDestinations_finite)
  have t: "topDestinations maxArcs rows = take (nat maxArcs) ?S"
    using assms by (simp add: topDestinations_def sortSlice_def slice0_nonneg)
  have l: "int (length (topDestinations maxArcs rows)) = min (int (length ?V)) maxArcs"
    using assms by (simp add: topDestinations_def sortSlice_def length_slice0)
  have r: "ranked (take (nat maxArcs) ?S)"
    using fin by (intro ranked_take ranked_sort_js)
  have f: "list_all finiteCount (take (nat maxArcs) ?S)"
    using fin by (intro list_all_take) simp
  have "sort_js byVisitorCount (take (nat maxArcs) ?S) = take (nat maxArcs) ?S"
    using f r by (rule sort_js_ranked)
  then have i: "sortSlice maxArcs (topDestinations maxArcs rows) = topDestinations maxArcs rows"
    using assms by (simp add: t sortSlice_def slice0_nonneg)
  show ?thesis
    using l r t i by (simp add: filter_sort_js maxArcs_default_def)
qed

theorem C5_selection_witness:
  "(0::int) \<le> 3 \<and>
   validDestinations [rowFil, rowAksam, rowRita, rowYer] = [destFil, aksam, destRita, destYer] \<and>
   topDestinations 3 [rowFil, rowAksam, rowRita, rowYer] = [aksam, destFil, destRita] \<and>
   ranked [aksam, destFil, destRita] \<and>
   sortSlice 3 [aksam, destFil, destRita] = [aksam, destFil, destRita]"
proof -
  have h: "(0::int) \<le> 3" by simp
  note t = C5_selection [OF h, of "[rowFil, rowAksam, rowRita, rowYer]"]
  have top: "topDestinations 3 [rowFil, rowAksam, rowRita, rowYer] = [aksam, destFil, destRita]"
    using t by (simp add: validDestinations_examples sort_example)
  from t have r: "ranked (topDestinations 3 [rowFil, rowAksam, rowRita, rowYer])"
    and i: "sortSlice 3 (topDestinations 3 [rowFil, rowAksam, rowRita, rowYer]) =
      topDestinations 3 [rowFil, rowAksam, rowRita, rowYer]"
    by blast+
  from h top r [unfolded top] i [unfolded top] validDestinations_examples(1)
  show ?thesis by blast
qed

text \<open>
  C6. The component draws the selected destinations, \<open>dests = topDestinations maxArcs rows\<close>
  with \<open>maxArcs \<ge> 0\<close>, and the index of a destination in this list is its rank: every
  destination before it has at least its visitor count, and every valid destination of
  the file that is not among those before it has at most its visitor count. So the
  destination of rank 0 has the greatest visitor count of all valid destinations, and
  this count is the maximum that \<^verbatim>\<open>drawArcs\<close> normalizes by. When \<^verbatim>\<open>drawArcs\<close> runs on a
  ready map, every destination whose arc is rendered, of the rank \<open>index\<close>, gets a polyline
  with the stroke weight \<open>2 + normalized * 3\<close> and the colour \<open>colors[index mod 5]\<close> of the
  palette of five, and a marker with the radius \<open>5 + normalized * 5\<close> filled with the same
  colour, where \<open>normalized\<close> is computed from its visitor count and the visitor count of
  the destination of rank 0; the layers are added in rank order. For three valid rows
  with the visitor counts 209, 179 and 100 and \<open>maxArcs = 2\<close>, in this order or in the
  order 100, 179, 209 in the file, the destinations with 209 and 179 visitors are
  selected in that order and drawn with the palette colours 0 and 1, and nothing else is
  drawn. (\<^verbatim>\<open>drawArcs\<close> itself colours by position and takes the maximum of the whole list:
  given the list with 179 before 209 it draws 179 with the palette colour 0 and the
  normalized value \<open>0.3 + 179 / 209 * 0.7\<close>.)
\<close>

theorem C6_arc_style:
  assumes "mapRef st = Some m" and "restaurantCoordinates st = Some originPoint"
    and "0 \<le> maxArcs" and "dests = topDestinations maxArcs rows"
    and "index < length dests" and "\<not> arcFails originPoint (dests ! index)"
  shows "\<exists>m' normalized.
     (\<forall>j<index. js_le (visitorCount (dests ! index)) (visitorCount (dests ! j))) \<and>
     (\<forall>d \<in> set (validDestinations rows).
        d \<in> set (take index dests) \<or>
        js_le (visitorCount d) (visitorCount (dests ! index))) \<and>
     Math_max (map visitorCount dests) = visitorCount (dests ! 0) \<and>
     normalized = normalizedValue (visitorCount (dests ! index)) (visitorCount (dests ! 0)) \<and>
     mapRef (drawArcs dests st) = Some m' \<and>
     Polyline (curvePoints originPoint (lat (dests ! index), lng (dests ! index)))
       \<lparr> color = colors ! (index mod 5),
         weight = js_add (Fin 2) (js_mul normalized (Fin 3)), opacity = Fin 0.8,
         className = Some ''flow-arc'', radius = None, fillColor = None,
         fillOpacity = None \<rparr> \<in> set (layers m') \<and>
     CircleMarker (lat (dests ! index), lng (dests ! index))
       \<lparr> color = ''white'', weight = Fin 2, opacity = Fin 1, className = None,
         radius = Some (js_add (Fin 5) (js_mul normalized (Fin 5))),
         fillColor = Some (colors ! (index mod 5)),
         fillOpacity = Some (Fin 0.8) \<rparr> \<in> set (layers m') \<and>
     layers m' = filter (\<lambda>l. \<not> isFlowArc l) (layers m) @
        concat (map (\<lambda>(i, d). arcLayers originPoint (visitorCount (dests ! 0)) i d)
          (enumerate 0 dests)) \<and>
     colors = [''#3B82F6'', ''#8B5CF6'', ''#EC4899'', ''#F97316'', ''#10B981''] \<and>
     topDestinations 2 [rowAksam, rowFil, rowYer] = [aksam, destFil] \<and>
     topDestinations 2 [rowYer, rowFil, rowAksam] = [aksam, destFil] \<and>
     map visitorCount (validDestinations [rowYer, rowFil, rowAksam]) =
       [Fin 100, Fin 179, Fin 209] \<and>
     mapRef (drawArcs (topDestinations 2 [rowYer, rowFil, rowAksam]) ready) =
       Some \<lparr> layers =
         [TileLayer ''voyager'',
          Polyline (curvePoints restaurant (Fin 40.98, Fin 29.02))
            (arcOptions ''#3B82F6'' (Fin 1)),
          CircleMarker (Fin 40.98, Fin 29.02) (markerOptions ''#3B82F6'' (Fin 1)),
          Polyline (curvePoints restaurant (Fin 40.97, Fin 29.03))
            (arcOptions ''#8B5CF6'' (Fin (0.3 + 179 / 209 * 0.7))),
          CircleMarker (Fin 40.97, Fin 29.03)
            (markerOptions ''#8B5CF6'' (Fin (0.3 + 179 / 209 * 0.7)))],
         view = FitBounds [restaurant, (Fin 40.98, Fin 29.02), (Fin 40.97, Fin 29.03)] \<rparr> \<and>
     mapRef (drawArcs (topDestinations 2 [rowAksam, rowFil, rowYer]) ready) =
       mapRef (drawArcs (topDestinations 2 [rowYer, rowFil, rowAksam]) ready) \<and>
     mapRef (drawArcs [destFil, aksam] ready) =
       Some \<lparr> layers =
         [TileLayer ''voyager'',
          Polyline (curvePoints restaurant (Fin 40.97, Fin 29.03))
            (arcOptions ''#3B82F6'' (Fin (0.3 + 179 / 209 * 0.7))),
          CircleMarker (Fin 40.97, Fin 29.03)
            (markerOptions ''#3B82F6'' (Fin (0.3 + 179 / 209 * 0.7))),
          Polyline (curvePoints restaurant (Fin 40.98, Fin 29.02))
            (arcOptions ''#8B5CF6'' (Fin 1)),
          CircleMarker (Fin 40.98, Fin 29.02) (markerOptions ''#8B5CF6'' (Fin 1))],
         view = FitBounds [restaurant, (Fin 40.97, Fin 29.03), (Fin 40.98, Fin 29.02)] \<rparr>"
proof -
  let ?mx = "visitorCount (dests ! 0)"
  let ?n = "normalizedValue (visitorCount (dests ! index)) ?mx"
  note rank = topDestinations_rank [OF assms(3,4,5)]
  from assms(5) have ne: "dests \<noteq> []" by auto
  from drawArcs_layers [OF assms(1,2) ne] obtain m' where
    m': "mapRef (drawArcs dests st) = Some m'"
    and l: "layers m' = filter (\<lambda>l. \<not> isFlowArc l) (layers m) @
        concat (map (\<lambda>(i, d). arcLayers originPoint ?mx i d) (enumerate 0 dests))"
    unfolding rank(1) by blast
  have a: "arcLayers originPoint ?mx index (dests ! index) =
      [Polyline (curvePoints originPoint (lat (dests ! index), lng (dests ! index)))
         \<lparr> color = colors ! (index mod 5),
           weight = js_add (Fin 2) (js_mul ?n (Fin 3)), opacity = Fin 0.8,
           className = Some ''flow-arc'', radius = None, fillColor = None,
           fillOpacity = None \<rparr>,
       CircleMarker (lat (dests ! index), lng (dests ! index))
         \<lparr> color = ''white'', weight = Fin 2, opacity = Fin 1, className = None,
           radius = Some (js_add (Fin 5) (js_mul ?n (Fin 5))),
           fillColor = Some (colors ! (index mod 5)),
           fillOpacity = Some (Fin 0.8) \<rparr>]"
    using assms(6) by (simp add: arcLayers_def arcOptions_def markerOptions_def colors_def)
  have "set (arcLayers originPoint ?mx index (dests ! index)) \<subseteq>
      set (concat (map (\<lambda>(i, d). arcLayers originPoint ?mx i d) (enumerate 0 dests)))"
    by (rule arcLayers_in_layers [OF assms(5)])
  also have "\<dots> \<subseteq> set (layers m')"
    unfolding l set_append by (rule Un_upper2)
  finally have s: "set (arcLayers originPoint ?mx index (dests ! index)) \<subseteq> set (layers m')" .
  have p: "Polyline (curvePoints originPoint (lat (dests ! index), lng (dests ! index)))
       \<lparr> color = colors ! (index mod 5),
         weight = js_add (Fin 2) (js_mul ?n (Fin 3)), opacity = Fin 0.8,
         className = Some ''flow-arc'', radius = None, fillColor = None,
         fillOpacity = None \<rparr> \<in> set (layers m')"
    using s unfolding a by simp
  have c: "CircleMarker (lat (dests ! index), lng (dests ! index))
       \<lparr> color = ''white'', weight = Fin 2, opacity = Fin 1, className = None,
         radius = Some (js_add (Fin 5) (js_mul ?n (Fin 5))),
         fillColor = Some (colors ! (index mod 5)),
         fillOpacity = Some (Fin 0.8) \<rparr> \<in> set (layers m')"
    using s unfolding a by simp
  have v: "map visitorCount (validDestinations [rowYer, rowFil, rowAksam]) =
      [Fin 100, Fin 179, Fin 209]"
    by (simp add: validDestinations_unranked aksam_def destFil_def destYer_def)
  have e: "colors = [''#3B82F6'', ''#8B5CF6'', ''#EC4899'', ''#F97316'', ''#10B981'']"
    by (simp add: colors_def)
  have x: "mapRef (drawArcs (topDestinations 2 [rowAksam, rowFil, rowYer]) ready) =
       mapRef (drawArcs (topDestinations 2 [rowYer, rowFil, rowAksam]) ready)"
    by (simp add: top_example top_example_unranked)
  note d1 = draw_example [folded top_example_unranked]
  show ?thesis
    by (intro exI [of _ m'] exI [of _ ?n] conjI)
      (rule refl rank m' p c l e top_example top_example_unranked v d1 x
        draw_example_unranked)+
qed

theorem C6_arc_style_witness:
  "mapRef ready = Some baseMap \<and> restaurantCoordinates ready = Some restaurant \<and>
   (0::int) \<le> 2 \<and> [aksam, destFil] = topDestinations 2 [rowYer, rowFil, rowAksam] \<and>
   Suc 0 < length [aksam, destFil] \<and> \<not> arcFails restaurant ([aksam, destFil] ! Suc 0) \<and>
   validDestinations [rowYer, rowFil, rowAksam] = [destYer, destFil, aksam] \<and>
   js_le (visitorCount destFil) (visitorCount aksam) \<and>
   js_le (visitorCount destYer) (visitorCount destFil) \<and>
   Math_max (map visitorCount [aksam, destFil]) = Fin 209 \<and>
   (\<exists>m'. mapRef (drawArcs [aksam, destFil] ready) = Some m' \<and>
      Polyline (curvePoints restaurant (Fin 40.97, Fin 29.03))
        \<lparr> color = ''#8B5CF6'', weight = Fin (2 + (0.3 + 179 / 209 * 0.7) * 3),
          opacity = Fin 0.8, className = Some ''flow-arc'', radius = None, fillColor = None,
          fillOpacity = None \<rparr> \<in> set (layers m') \<and>
      CircleMarker (Fin 40.97, Fin 29.03)
        \<lparr> color = ''white'', weight = Fin 2, opacity = Fin 1, className = None,
          radius = Some (Fin (5 + (0.3 + 179 / 209 * 0.7) * 5)),
          fillColor = Some ''#8B5CF6'', fillOpacity = Some (Fin 0.8) \<rparr> \<in> set (layers m'))"
proof -
  have h: "mapRef ready = Some baseMap" "restaurantCoordinates ready = Some restaurant"
    "(0::int) \<le> 2" "[aksam, destFil] = topDestinations 2 [rowYer, rowFil, rowAksam]"
    "Suc 0 < length [aksam, destFil]" "\<not> arcFails restaurant ([aksam, destFil] ! Suc 0)"
    by (simp_all add: ready_fields arcFails_examples top_example_unranked)
  have n: "normalizedValue (visitorCount ([aksam, destFil] ! Suc 0))
      (visitorCount ([aksam, destFil] ! 0)) = Fin (0.3 + 179 / 209 * 0.7)"
    by (simp add: example_fields normalizedValue_def)
  have c: "colors ! (Suc 0 mod 5) = ''#8B5CF6''"
    by (simp add: colors_def)
  have yer: "destYer \<in> set (validDestinations [rowYer, rowFil, rowAksam])"
    by (simp add: validDestinations_unranked)
  have out: "destYer \<notin> set (take (Suc 0) [aksam, destFil])"
    by (simp add: destYer_def aksam_def)
  from C6_arc_style [OF h] obtain m' normalized where
    r1': "\<forall>j<Suc 0. js_le (visitorCount ([aksam, destFil] ! Suc 0))
        (visitorCount ([aksam, destFil] ! j))"
    and r2': "\<forall>d \<in> set (validDestinations [rowYer, rowFil, rowAksam]).
        d \<in> set (take (Suc 0) [aksam, destFil]) \<or>
        js_le (visitorCount d) (visitorCount ([aksam, destFil] ! Suc 0))"
    and r3': "Math_max (map visitorCount [aksam, destFil]) = visitorCount ([aksam, destFil] ! 0)"
    and nn: "normalized = normalizedValue (visitorCount ([aksam, destFil] ! Suc 0))
        (visitorCount ([aksam, destFil] ! 0))"
    and r4: "mapRef (drawArcs [aksam, destFil] ready) = Some m'"
    and r5: "Polyline (curvePoints restaurant
         (lat ([aksam, destFil] ! Suc 0), lng ([aksam, destFil] ! Suc 0)))
       \<lparr> color = colors ! (Suc 0 mod 5),
         weight = js_add (Fin 2) (js_mul normalized (Fin 3)), opacity = Fin 0.8,
         className = Some ''flow-arc'', radius = None, fillColor = None,
         fillOpacity = None \<rparr> \<in> set (layers m')"
    and r6: "CircleMarker (lat ([aksam, destFil] ! Suc 0), lng ([aksam, destFil] ! Suc 0))
       \<lparr> color = ''white'', weight = Fin 2, opacity = Fin 1, className = None,
         radius = Some (js_add (Fin 5) (js_mul normalized (Fin 5))),
         fillColor = Some (colors ! (Suc 0 mod 5)),
         fillOpacity = Some (Fin 0.8) \<rparr> \<in> set (layers m')"
    by (elim exE conjE)
  from r1' have r1: "js_le (visitorCount destFil) (visitorCount aksam)" by simp
  from r2' yer out have r2: "js_le (visitorCount destYer) (visitorCount destFil)"
    by auto
  from r3' have r3: "Math_max (map visitorCount [aksam, destFil]) = Fin 209"
    by (simp add: example_fields)
  from r4 r5 r6 have "\<exists>m'. mapRef (drawArcs [aksam, destFil] ready) = Some m' \<and>
      Polyline (curvePoints restaurant (Fin 40.97, Fin 29.03))
        \<lparr> color = ''#8B5CF6'', weight = Fin (2 + (0.3 + 179 / 209 * 0.7) * 3),
          opacity = Fin 0.8, className = Some ''flow-arc'', radius = None, fillColor = None,
          fillOpacity = None \<rparr> \<in> set (layers m') \<and>
      CircleMarker (Fin 40.97, Fin 29.03)
        \<lparr> color = ''white'', weight = Fin 2, opacity = Fin 1, className = None,
          radius = Some (Fin (5 + (0.3 + 179 / 209 * 0.7) * 5)),
          fillColor = Some ''#8B5CF6'', fillOpacity = Some (Fin 0.8) \<rparr> \<in> set (layers m')"
    unfolding nn n c by (intro exI [of _ m']) (simp add: example_fields)
  with h r1 r2 r3 validDestinations_unranked show ?thesis by blast
qed

text \<open>
  C7. The dash animation of an arc starts with the offset 0 and the dash length
  \<open>dashArray = 5 + normalized * 5\<close>; each call of \<^verbatim>\<open>animateArc\<close> sets the offset to
  \<open>(offset + 1) mod (2 * dashArray)\<close>, the dash pattern to \<open>(dashArray, dashArray)\<close> and
  the phase to the new offset. For the dash length 10 (the arc of the destination with
  the most visitors, \<open>normalized = 1\<close>) the offset after \<open>t\<close> calls is \<open>t mod 20\<close>, for
  every \<open>t\<close>, so the sequence has the period 20. The interval that \<^verbatim>\<open>drawArcs\<close>
  starts for a single destination is this animation after its first call.
\<close>

theorem C7_dash_offset:
  "offset (newAnimation normalized) = Fin 0 \<and>
   dashArray (newAnimation normalized) = js_add (Fin 5) (js_mul normalized (Fin 5)) \<and>
   offset (animateArc a) = js_mod (js_add (offset a) (Fin 1)) (js_mul (dashArray a) (Fin 2)) \<and>
   dashArray (animateArc a) = dashArray a \<and>
   stroke_dasharray (animateArc a) = Some (dashArray a, dashArray a) \<and>
   stroke_dashoffset (animateArc a) = Some (offset (animateArc a)) \<and>
   dashArray (newAnimation (Fin 1)) = Fin 10 \<and>
   offset ((animateArc ^^ t) (newAnimation (Fin 1))) = Fin (real (t mod 20)) \<and>
   offset ((animateArc ^^ (t + 20)) (newAnimation (Fin 1))) =
     offset ((animateArc ^^ t) (newAnimation (Fin 1))) \<and>
   intervals (drawArcs [aksam] ready) = [(animateArc ^^ 1) (newAnimation (Fin 1))]"
proof -
  have ne: "[aksam] \<noteq> []" by simp
  have d: "intervals (drawArcs [aksam] ready) = [(animateArc ^^ 1) (newAnimation (Fin 1))]"
    unfolding drawArcs_intervals [OF ready_fields(1,2) ne]
    by (simp add: draw_simps ready_fields)
  have n: "newAnimation (Fin 1) = (newAnimation (Fin 1))\<lparr>dashArray := Fin 10, offset := Fin 0\<rparr>"
    by (simp add: newAnimation_def)
  have o: "offset ((animateArc ^^ k) (newAnimation (Fin 1))) = Fin (real (k mod 20))" for k
    by (subst n) (rule offset_funpow_10)
  show ?thesis
    unfolding d by (simp add: o) (simp add: newAnimation_def)
qed

text \<open>
  C8, as the code has it. The pulse starts with the radius 10, growing. After every tick
  the radius is between 10 and 25; a tick changes it by 0.5 in the current direction and
  sets it on the marker; the direction reverses exactly when the new radius has reached a
  bound (at least 25 while growing, at most 10 while shrinking). The tick changes nothing
  else: the opacity and the fill opacity of the marker stay 0.3.
\<close>

theorem C8_pulse_radius_bounds:
  "(\<exists>s. size' ((pulseTick ^^ n) pulseStart) = Fin s \<and> 10 \<le> s \<and> s \<le> 25) \<and>
   size' pulseStart = Fin 10 \<and> increasing pulseStart \<and>
   radius (pulse ((pulseTick ^^ Suc n) pulseStart)) =
     Some (size' ((pulseTick ^^ Suc n) pulseStart)) \<and>
   size' ((pulseTick ^^ Suc n) pulseStart) =
     (if increasing ((pulseTick ^^ n) pulseStart)
      then js_add (size' ((pulseTick ^^ n) pulseStart)) (Fin 0.5)
      else js_sub (size' ((pulseTick ^^ n) pulseStart)) (Fin 0.5)) \<and>
   (increasing ((pulseTick ^^ Suc n) pulseStart) \<noteq> increasing ((pulseTick ^^ n) pulseStart)) =
     (if increasing ((pulseTick ^^ n) pulseStart)
      then js_ge (size' ((pulseTick ^^ Suc n) pulseStart)) (Fin 25)
      else js_le (size' ((pulseTick ^^ Suc n) pulseStart)) (Fin 10)) \<and>
   opacity (pulse ((pulseTick ^^ n) pulseStart)) = Fin 0.3 \<and>
   fillOpacity (pulse ((pulseTick ^^ n) pulseStart)) = Some (Fin 0.3)"
proof -
  have b: "\<exists>s. size' ((pulseTick ^^ n) pulseStart) = Fin s \<and> 10 \<le> s \<and> s \<le> 25"
    by (rule pulse_inv_bounds) (rule pulse_inv_funpow)
  have s: "size' pulseStart = Fin 10 \<and> increasing pulseStart"
    by (simp add: pulseStart_def)
  show ?thesis
    using b s pulse_opacity_funpow [of n] by (auto simp: pulseTick_fields)
qed

text \<open>
  C8 as stated has the opacity toggle with the direction. At the thirtieth tick the radius
  reaches 25 and the direction reverses, and the opacity and the fill opacity of the
  marker are what they were before the tick.
\<close>

theorem C8_no_opacity_toggle:
  "increasing ((pulseTick ^^ 29) pulseStart) \<and> \<not> increasing ((pulseTick ^^ 30) pulseStart) \<and>
   size' ((pulseTick ^^ 30) pulseStart) = Fin 25 \<and>
   opacity (pulse ((pulseTick ^^ 30) pulseStart)) =
     opacity (pulse ((pulseTick ^^ 29) pulseStart)) \<and>
   fillOpacity (pulse ((pulseTick ^^ 30) pulseStart)) =
     fillOpacity (pulse ((pulseTick ^^ 29) pulseStart))"
  using pulse_up [of 29] pulse_up [of 30] pulse_opacity_funpow [of 29]
    pulse_opacity_funpow [of 30]
  by simp

text \<open>
  C9, as the code has it. When \<^verbatim>\<open>drawArcs\<close> runs on a ready map, an exception in the
  iteration of one destination is caught and logged there, and the loop goes on: the map
  gets, in the order of the list, the layers of every destination whose arc does not
  fail, and an interval is started for each of them; every failing destination leaves one
  error entry in the console and nothing on the map. The arc of a destination is computed
  from its own data, its index in the whole list and the maximum visitor count of the
  whole list, failing destinations included.
\<close>

theorem C9_failed_arc_is_isolated:
  assumes "mapRef st = Some m" and "restaurantCoordinates st = Some originPoint"
    and "dests \<noteq> []"
  shows "\<exists>m'. mapRef (drawArcs dests st) = Some m' \<and>
     layers m' = filter (\<lambda>l. \<not> isFlowArc l) (layers m) @
        concat (map (\<lambda>(i, d). arcLayers originPoint (Math_max (map visitorCount dests)) i d)
          (enumerate 0 dests)) \<and>
     intervals (drawArcs dests st) = intervals st @
        concat (map (arcAnimations originPoint (Math_max (map visitorCount dests))) dests) \<and>
     console (drawArcs dests st) = console st @
        [ConsoleLog ''Manual drawArcs called with'', ConsoleLog ''RESTAURANT COORDINATES:'',
         ConsoleLog ''DESTINATION EXAMPLE:'', ConsoleLog ''Max visitors:''] @
        concat (map (arcLog originPoint) dests) @
        ConsoleLog ''Setting map bounds for'' #
          (if list_ex invalidLatLng (originPoint # map (\<lambda>d. (lat d, lng d)) dests)
           then [ConsoleError ''Error setting map bounds:''] else []) \<and>
     (\<forall>index < length dests.
        set (arcLayers originPoint (Math_max (map visitorCount dests)) index (dests ! index))
          \<subseteq> set (layers m') \<and>
        set (arcAnimations originPoint (Math_max (map visitorCount dests)) (dests ! index))
          \<subseteq> set (intervals (drawArcs dests st)))"
proof -
  let ?mx = "Math_max (map visitorCount dests)"
  from drawArcs_layers [OF assms] obtain m' where
    m': "mapRef (drawArcs dests st) = Some m'"
    and l: "layers m' = filter (\<lambda>l. \<not> isFlowArc l) (layers m) @
        concat (map (\<lambda>(i, d). arcLayers originPoint ?mx i d) (enumerate 0 dests))"
    by blast
  note i = drawArcs_intervals [OF assms]
  note c = drawArcs_console [OF assms]
  have "set (arcLayers originPoint ?mx index (dests ! index)) \<subseteq> set (layers m')"
    if "index < length dests" for index
  proof -
    have "set (arcLayers originPoint ?mx index (dests ! index)) \<subseteq>
        set (concat (map (\<lambda>(i, d). arcLayers originPoint ?mx i d) (enumerate 0 dests)))"
      by (rule arcLayers_in_layers [OF that])
    also have "\<dots> \<subseteq> set (layers m')"
      unfolding l set_append by (rule Un_upper2)
    finally show ?thesis .
  qed
  moreover have "set (arcAnimations originPoint ?mx (dests ! index)) \<subseteq>
      set (intervals (drawArcs dests st))" if "index < length dests" for index
  proof -
    have "dests ! index \<in> set dests" using that by simp
    then show ?thesis unfolding i by auto
  qed
  ultimately show ?thesis using m' l i c by blast
qed

theorem C9_failed_arc_is_isolated_witness:
  "mapRef ready = Some baseMap \<and> restaurantCoordinates ready = Some restaurant \<and>
   [atRestaurant, destFil] \<noteq> [] \<and> arcFails restaurant atRestaurant \<and>
   (\<exists>m'. mapRef (drawArcs [atRestaurant, destFil] ready) = Some m' \<and>
      layers m' =
        [TileLayer ''voyager'',
         Polyline (curvePoints restaurant (Fin 40.97, Fin 29.03))
           (arcOptions ''#8B5CF6'' (Fin (0.3 + 179 / 300 * 0.7))),
         CircleMarker (Fin 40.97, Fin 29.03)
           (markerOptions ''#8B5CF6'' (Fin (0.3 + 179 / 300 * 0.7)))]) \<and>
   intervals (drawArcs [atRestaurant, destFil] ready) =
     [animateArc (newAnimation (Fin (0.3 + 179 / 300 * 0.7)))] \<and>
   console (drawArcs [atRestaurant, destFil] ready) =
     [ConsoleLog ''Manual drawArcs called with'', ConsoleLog ''RESTAURANT COORDINATES:'',
      ConsoleLog ''DESTINATION EXAMPLE:'', ConsoleLog ''Max visitors:'',
      ConsoleLog ''Drawing arc from ['', ConsoleError ''Error creating arc for'',
      ConsoleLog ''Drawing arc from ['', ConsoleLog ''Setting map bounds for'']"
proof -
  have h: "mapRef ready = Some baseMap" "restaurantCoordinates ready = Some restaurant"
    "[atRestaurant, destFil] \<noteq> []"
    by (simp_all add: ready_fields)
  have v: "\<not> list_ex invalidLatLng
      (restaurant # map (\<lambda>d. (lat d, lng d)) [atRestaurant, destFil])"
    by (simp add: restaurant_def invalidLatLng_def example_fields)
  from C9_failed_arc_is_isolated [OF h] obtain m' where
    m: "mapRef (drawArcs [atRestaurant, destFil] ready) = Some m'"
    and l: "layers m' = filter (\<lambda>l. \<not> isFlowArc l) (layers baseMap) @
        concat (map (\<lambda>(i, d). arcLayers restaurant
            (Math_max (map visitorCount [atRestaurant, destFil])) i d)
          (enumerate 0 [atRestaurant, destFil]))"
    and i: "intervals (drawArcs [atRestaurant, destFil] ready) = intervals ready @
        concat (map (arcAnimations restaurant
            (Math_max (map visitorCount [atRestaurant, destFil]))) [atRestaurant, destFil])"
    and c: "console (drawArcs [atRestaurant, destFil] ready) = console ready @
        [ConsoleLog ''Manual drawArcs called with'', ConsoleLog ''RESTAURANT COORDINATES:'',
         ConsoleLog ''DESTINATION EXAMPLE:'', ConsoleLog ''Max visitors:''] @
        concat (map (arcLog restaurant) [atRestaurant, destFil]) @
        ConsoleLog ''Setting map bounds for'' #
          (if list_ex invalidLatLng
                (restaurant # map (\<lambda>d. (lat d, lng d)) [atRestaurant, destFil])
           then [ConsoleError ''Error setting map bounds:''] else [])"
    by blast
  have l': "layers m' =
        [TileLayer ''voyager'',
         Polyline (curvePoints restaurant (Fin 40.97, Fin 29.03))
           (arcOptions ''#8B5CF6'' (Fin (0.3 + 179 / 300 * 0.7))),
         CircleMarker (Fin 40.97, Fin 29.03)
           (markerOptions ''#8B5CF6'' (Fin (0.3 + 179 / 300 * 0.7)))]"
    unfolding l by (simp add: draw_simps)
  have i': "intervals (drawArcs [atRestaurant, destFil] ready) =
     [animateArc (newAnimation (Fin (0.3 + 179 / 300 * 0.7)))]"
    unfolding i by (simp add: draw_simps ready_fields)
  have c': "console (drawArcs [atRestaurant, destFil] ready) =
     [ConsoleLog ''Manual drawArcs called with'', ConsoleLog ''RESTAURANT COORDINATES:'',
      ConsoleLog ''DESTINATION EXAMPLE:'', ConsoleLog ''Max visitors:'',
      ConsoleLog ''Drawing arc from ['', ConsoleError ''Error creating arc for'',
      ConsoleLog ''Drawing arc from ['', ConsoleLog ''Setting map bounds for'']"
    unfolding c using v by (simp add: draw_simps ready_fields)
  from h arcFails_examples(4) m l' i' c' show ?thesis by blast
qed

text \<open>
  C9 as stated has the other destinations drawn as if the failing destination were
  absent. With the restaurant at \<open>(41, 29)\<close>, a first destination at the restaurant
  (its arc fails) and a second one with 179 visitors, the second is drawn with the second
  colour of the palette and a normalized value below 1 (the maximum is the 300 visitors
  of the failing destination); drawn alone it has the first colour and the normalized
  value 1.
\<close>

theorem C9_absent_destination_differs:
  "arcFails restaurant atRestaurant \<and>
   map_option layers (mapRef (drawArcs [atRestaurant, destFil] ready)) =
     Some [TileLayer ''voyager'',
           Polyline (curvePoints restaurant (Fin 40.97, Fin 29.03))
             (arcOptions ''#8B5CF6'' (Fin (0.3 + 179 / 300 * 0.7))),
           CircleMarker (Fin 40.97, Fin 29.03)
             (markerOptions ''#8B5CF6'' (Fin (0.3 + 179 / 300 * 0.7)))] \<and>
   map_option layers (mapRef (drawArcs [destFil] ready)) =
     Some [TileLayer ''voyager'',
           Polyline (curvePoints restaurant (Fin 40.97, Fin 29.03))
             (arcOptions ''#3B82F6'' (Fin 1)),
           CircleMarker (Fin 40.97, Fin 29.03) (markerOptions ''#3B82F6'' (Fin 1))] \<and>
   map_option layers (mapRef (drawArcs [atRestaurant, destFil] ready)) \<noteq>
     map_option layers (mapRef (drawArcs [destFil] ready))"
proof -
  have ne: "[atRestaurant, destFil] \<noteq> []" "[destFil] \<noteq> []" by simp_all
  have 1: "map_option layers (mapRef (drawArcs [atRestaurant, destFil] ready)) =
     Some [TileLayer ''voyager'',
           Polyline (curvePoints restaurant (Fin 40.97, Fin 29.03))
             (arcOptions ''#8B5CF6'' (Fin (0.3 + 179 / 300 * 0.7))),
           CircleMarker (Fin 40.97, Fin 29.03)
             (markerOptions ''#8B5CF6'' (Fin (0.3 + 179 / 300 * 0.7)))]"
    unfolding drawArcs_ready [OF ready_fields(1,2) ne(1)] fitBounds_fields
    by (simp add: draw_simps)
  have 2: "map_option layers (mapRef (drawArcs [destFil] ready)) =
     Some [TileLayer ''voyager'',
           Polyline (curvePoints restaurant (Fin 40.97, Fin 29.03))
             (arcOptions ''#3B82F6'' (Fin 1)),
           CircleMarker (Fin 40.97, Fin 29.03) (markerOptions ''#3B82F6'' (Fin 1))]"
    unfolding drawArcs_ready [OF ready_fields(1,2) ne(2)] fitBounds_fields
    by (simp add: draw_simps)
  have 3: "map_option layers (mapRef (drawArcs [atRestaurant, destFil] ready)) \<noteq>
     map_option layers (mapRef (drawArcs [destFil] ready))"
    unfolding 1 2 by (simp add: arcOptions_def)
  from arcFails_examples(4) 1 2 3 show ?thesis by blast
qed

text \<open>
  C10. When \<^verbatim>\<open>drawArcs\<close> is called with no map, with an empty list of destinations or
  with no restaurant coordinates, it returns after two console entries and changes
  nothing else: the map with its layers and view, the intervals and the React state are
  what they were.
\<close>

theorem C10_guarded_call_changes_nothing:
  assumes "mapRef st = None \<or> arcsDestinations = [] \<or> restaurantCoordinates st = None"
  shows "(\<exists>msg. drawArcs arcsDestinations st =
            st\<lparr>console := console st @
              [ConsoleLog ''Manual drawArcs called with'', ConsoleError msg]\<rparr>) \<and>
         mapRef (drawArcs arcsDestinations st) = mapRef st \<and>
         intervals (drawArcs arcsDestinations st) = intervals st \<and>
         restaurantCoordinates (drawArcs arcsDestinations st) = restaurantCoordinates st \<and>
         destinations (drawArcs arcsDestinations st) = destinations st"
  using assms
  by (auto simp: drawArcs_def console_log_def console_error_def Let_def split: option.splits)

theorem C10_guarded_call_witness:
  "mapRef \<lparr> mapRef = None, restaurantCoordinates = Some (Fin 41, Fin 29), destinations = [aksam],
       intervals = [], console = [] \<rparr> = None \<and>
   drawArcs [aksam] \<lparr> mapRef = None, restaurantCoordinates = Some (Fin 41, Fin 29),
       destinations = [aksam], intervals = [], console = [] \<rparr> =
     \<lparr> mapRef = None, restaurantCoordinates = Some (Fin 41, Fin 29), destinations = [aksam],
       intervals = [],
       console = [ConsoleLog ''Manual drawArcs called with'',
                  ConsoleError ''Map reference is null - cannot draw arcs''] \<rparr> \<and>
   mapRef (drawArcs [] \<lparr> mapRef = Some baseMap, restaurantCoordinates = Some (Fin 41, Fin 29),
       destinations = [], intervals = [], console = [] \<rparr>) = Some baseMap \<and>
   mapRef (drawArcs [aksam] \<lparr> mapRef = Some baseMap, restaurantCoordinates = None,
       destinations = [aksam], intervals = [], console = [] \<rparr>) = Some baseMap"
  using
    C10_guarded_call_changes_nothing [of "\<lparr> mapRef = None,
       restaurantCoordinates = Some (Fin 41, Fin 29), destinations = [aksam], intervals = [],
       console = [] \<rparr>" "[aksam]"]
    C10_guarded_call_changes_nothing [of "\<lparr> mapRef = Some baseMap,
       restaurantCoordinates = Some (Fin 41, Fin 29), destinations = [], intervals = [],
       console = [] \<rparr>" "[]"]
    C10_guarded_call_changes_nothing [of "\<lparr> mapRef = Some baseMap,
       restaurantCoordinates = None, destinations = [aksam], intervals = [],
       console = [] \<rparr>" "[aksam]"]
  by (simp add: drawArcs_def console_log_def console_error_def Let_def)

end
